theory Spec2Isabelle
  imports Complex_Main
begin

section \<open>JavaScript strings\<close>

text \<open>
  A JavaScript string is a sequence of UTF-16 code units; \<open>length\<close> counts them, as
  \<^verbatim>\<open>code.length\<close> does. String literals of the source are written \<open>js ''...''\<close>.
\<close>

type_synonym jsstring = "nat list"

abbreviation (input) js :: "string \<Rightarrow> jsstring" where
  "js s \<equiv> map of_char s"

text \<open>
  The code units removed by \<^verbatim>\<open>String.prototype.trim\<close> and matched by \<^verbatim>\<open>\s\<close>:
  ECMAScript WhiteSpace and LineTerminator.
\<close>

definition is_ws :: "nat \<Rightarrow> bool" where
  "is_ws c = (c = 9 \<or> c = 10 \<or> c = 11 \<or> c = 12 \<or> c = 13 \<or> c = 32 \<or> c = 160 \<or> c = 5760
     \<or> (8192 \<le> c \<and> c \<le> 8202) \<or> c = 8232 \<or> c = 8233 \<or> c = 8239 \<or> c = 8287
     \<or> c = 12288 \<or> c = 65279)"

text \<open>The code units matched by \<^verbatim>\<open>\w\<close> (no unicode flag): \<^verbatim>\<open>[A-Za-z0-9_]\<close>.\<close>

definition is_word :: "nat \<Rightarrow> bool" where
  "is_word c = ((48 \<le> c \<and> c \<le> 57) \<or> (65 \<le> c \<and> c \<le> 90) \<or> c = 95 \<or> (97 \<le> c \<and> c \<le> 122))"

definition trim :: "jsstring \<Rightarrow> jsstring" where
  "trim s = rev (dropWhile is_ws (rev (dropWhile is_ws s)))"

text \<open>\<^verbatim>\<open>s.split(d)\<close> for a one-unit separator: never empty, \<^verbatim>\<open>''.split(d)\<close> is \<^verbatim>\<open>['']\<close>.\<close>

fun split_on :: "nat \<Rightarrow> jsstring \<Rightarrow> jsstring list" where
  "split_on d [] = [[]]"
| "split_on d (c # cs) =
     (if c = d then [] # split_on d cs
      else (case split_on d cs of l # ls \<Rightarrow> (c # l) # ls | [] \<Rightarrow> [[c]]))"

text \<open>\<^verbatim>\<open>s.includes(pat)\<close>.\<close>

fun includes_str :: "jsstring \<Rightarrow> jsstring \<Rightarrow> bool" where
  "includes_str [] pat = (pat = [])"
| "includes_str (c # cs) pat = (take (length pat) (c # cs) = pat \<or> includes_str cs pat)"

text \<open>\<^verbatim>\<open>xs.join(sep)\<close>.\<close>

fun join :: "jsstring \<Rightarrow> jsstring list \<Rightarrow> jsstring" where
  "join sep [] = []"
| "join sep [x] = x"
| "join sep (x # y # ys) = x @ sep @ join sep (y # ys)"

subsection \<open>\<^verbatim>\<open>JSON.stringify\<close> of an array of strings\<close>

definition hex_digit :: "nat \<Rightarrow> nat" where
  "hex_digit d = (if d < 10 then 48 + d else 87 + d)"

definition unicode_escape :: "nat \<Rightarrow> jsstring" where
  "unicode_escape c =
     [92, 117, hex_digit (c div 4096 mod 16), hex_digit (c div 256 mod 16),
      hex_digit (c div 16 mod 16), hex_digit (c mod 16)]"

definition is_lead_surrogate :: "nat \<Rightarrow> bool" where
  "is_lead_surrogate c = (55296 \<le> c \<and> c \<le> 56319)"

definition is_trail_surrogate :: "nat \<Rightarrow> bool" where
  "is_trail_surrogate c = (56320 \<le> c \<and> c \<le> 57343)"

definition json_escape_unit :: "nat \<Rightarrow> jsstring" where
  "json_escape_unit c =
     (if c = 8 then [92, 98] else if c = 9 then [92, 116] else if c = 10 then [92, 110]
      else if c = 12 then [92, 102] else if c = 13 then [92, 114]
      else if c = 34 then [92, 34] else if c = 92 then [92, 92]
      else if c < 32 \<or> is_lead_surrogate c \<or> is_trail_surrogate c then unicode_escape c
      else [c])"

text \<open>A well-formed surrogate pair is copied; a lone surrogate is escaped.\<close>

fun json_quote_units :: "jsstring \<Rightarrow> jsstring" where
  "json_quote_units [] = []"
| "json_quote_units [c] = json_escape_unit c"
| "json_quote_units (c # d # cs) =
     (if is_lead_surrogate c \<and> is_trail_surrogate d then c # d # json_quote_units cs
      else json_escape_unit c @ json_quote_units (d # cs))"

definition JSON_stringify_str :: "jsstring \<Rightarrow> jsstring" where
  "JSON_stringify_str s = [34] @ json_quote_units s @ [34]"

definition JSON_stringify_lines :: "jsstring list \<Rightarrow> jsstring" where
  "JSON_stringify_lines ls = [91] @ join [44] (map JSON_stringify_str ls) @ [93]"

section \<open>The declaration-name scan\<close>

text \<open>
  \<^verbatim>\<open>extractFunctionNames\<close> runs the global regular expression
  \<^verbatim>\<open>/(?:function\s+(\w+)|const\s+(\w+)\s*=|let\s+(\w+)\s*=|var\s+(\w+)\s*=)/g\<close>
  with \<^verbatim>\<open>exec\<close> until it returns null. The expression has no anchor, boundary or
  look-behind, so a match at an index depends only on the text from that index on: the
  matcher works on the remaining text and returns the captured name with the text after
  the match (the text from the new \<^verbatim>\<open>lastIndex\<close>). The classes \<^verbatim>\<open>\s\<close> and \<^verbatim>\<open>\w\<close>
  are disjoint and \<^verbatim>\<open>=\<close> is in neither, so the greedy quantifiers never give back.
\<close>

definition strip_prefix :: "jsstring \<Rightarrow> jsstring \<Rightarrow> jsstring option" where
  "strip_prefix kw s = (if take (length kw) s = kw then Some (drop (length kw) s) else None)"

text \<open>\<^verbatim>\<open>function\s+(\w+)\<close> at the start of the text.\<close>

definition match_function :: "jsstring \<Rightarrow> (jsstring \<times> jsstring) option" where
  "match_function s =
     (case strip_prefix (js ''function'') s of
        None \<Rightarrow> None
      | Some r \<Rightarrow>
          (let r1 = dropWhile is_ws r; name = takeWhile is_word r1
           in if takeWhile is_ws r = [] \<or> name = [] then None
              else Some (name, dropWhile is_word r1)))"

text \<open>\<^verbatim>\<open>kw\s+(\w+)\s*=\<close> at the start of the text, for \<^verbatim>\<open>const\<close>, \<^verbatim>\<open>let\<close>, \<^verbatim>\<open>var\<close>.\<close>

definition match_assign :: "jsstring \<Rightarrow> jsstring \<Rightarrow> (jsstring \<times> jsstring) option" where
  "match_assign kw s =
     (case strip_prefix kw s of
        None \<Rightarrow> None
      | Some r \<Rightarrow>
          (let r1 = dropWhile is_ws r; name = takeWhile is_word r1
           in if takeWhile is_ws r = [] \<or> name = [] then None
              else (case dropWhile is_ws (dropWhile is_word r1) of
                      [] \<Rightarrow> None
                    | c # r3 \<Rightarrow> if c = 61 then Some (name, r3) else None)))"

text \<open>The four alternatives, tried in the order of the expression.\<close>

definition match_here :: "jsstring \<Rightarrow> (jsstring \<times> jsstring) option" where
  "match_here s =
     (case match_function s of Some m \<Rightarrow> Some m | None \<Rightarrow>
      (case match_assign (js ''const'') s of Some m \<Rightarrow> Some m | None \<Rightarrow>
       (case match_assign (js ''let'') s of Some m \<Rightarrow> Some m | None \<Rightarrow>
        match_assign (js ''var'') s)))"

text \<open>A match is not empty: the text after it is shorter, and the loop below ends.\<close>

lemma strip_prefix_shorter:
  assumes "strip_prefix kw s = Some r" and "kw \<noteq> []"
  shows "length r < length s"
proof -
  from assms(1) have tk: "take (length kw) s = kw" and r: "r = drop (length kw) s"
    by (auto simp: strip_prefix_def split: if_splits)
  from tk have "length (take (length kw) s) = length kw" by simp
  then have "length kw \<le> length s" by simp
  with assms(2) show ?thesis unfolding r by (cases kw) auto
qed

lemma dropWhile_twice_le: "length (dropWhile P (dropWhile Q xs)) \<le> length xs"
  by (rule order_trans[OF length_dropWhile_le length_dropWhile_le])

lemma match_function_shorter:
  assumes "match_function s = Some (name, rest)"
  shows "length rest < length s"
proof -
  from assms obtain r where r: "strip_prefix (js ''function'') s = Some r"
    and rest: "rest = dropWhile is_word (dropWhile is_ws r)"
    by (auto simp only: match_function_def Let_def split: option.splits if_splits)
  have "length r < length s" by (rule strip_prefix_shorter[OF r]) simp
  with dropWhile_twice_le[of is_word is_ws r] show ?thesis unfolding rest by linarith
qed

lemma match_assign_shorter:
  assumes "match_assign kw s = Some (name, rest)" and "kw \<noteq> []"
  shows "length rest < length s"
proof -
  from assms(1) obtain r c where r: "strip_prefix kw s = Some r"
    and rest: "dropWhile is_ws (dropWhile is_word (dropWhile is_ws r)) = c # rest"
    by (auto simp only: match_assign_def Let_def split: option.splits if_splits list.splits)
  have "length r < length s" by (rule strip_prefix_shorter[OF r assms(2)])
  moreover have "length (c # rest) \<le> length (dropWhile is_ws r)"
    unfolding rest[symmetric] by (rule dropWhile_twice_le)
  moreover have "length (dropWhile is_ws r) \<le> length r" by (rule length_dropWhile_le)
  ultimately show ?thesis by simp
qed

lemma match_here_shorter:
  assumes "match_here s = Some (name, rest)"
  shows "length rest < length s"
proof -
  from assms consider "match_function s = Some (name, rest)"
    | kw where "kw \<noteq> []" "match_assign kw s = Some (name, rest)"
    by (auto simp only: match_here_def split: option.splits)
  then show ?thesis
    by cases (auto intro: match_function_shorter match_assign_shorter)
qed

text \<open>
  The \<^verbatim>\<open>while\<close> loop: a match pushes its name unless it is empty, \<^verbatim>\<open>require\<close>
  or \<^verbatim>\<open>module\<close>, and the search goes on after the match; without a match at this index
  the search moves one code unit on; at the end of the text \<^verbatim>\<open>exec\<close> returns null.
\<close>

function scan_names :: "jsstring \<Rightarrow> jsstring list" where
  "scan_names s =
     (case match_here s of
        Some (name, rest) \<Rightarrow>
          (if name \<noteq> [] \<and> name \<noteq> js ''require'' \<and> name \<noteq> js ''module'' then [name] else []) @
          scan_names rest
      | None \<Rightarrow> (case s of [] \<Rightarrow> [] | c # cs \<Rightarrow> scan_names cs))"
  by pat_completeness auto
termination
  by (relation "measure length") (auto simp: match_here_shorter)

definition extractFunctionNames :: "jsstring \<Rightarrow> jsstring list" where
  "extractFunctionNames code = scan_names code"

section \<open>The code transformer\<close>

definition bare_name_wrapper :: "jsstring \<Rightarrow> jsstring \<Rightarrow> jsstring" where
  "bare_name_wrapper functionCode functionName =
    [10] @
    js ''// Auto-generated wrapper for Node.js Serverless Function Handler  '' @ [10] @
    js ''(function() {'' @ [10] @
    js ''  try {'' @ [10] @
    js ''    '' @ functionCode @ [10] @
    js ''    '' @ [10] @
    js ''    // Call the function directly by name'' @ [10] @
    js ''    if (typeof '' @ functionName @ js '' === 'function') {'' @ [10] @
    js ''      const result = '' @ functionName @ js ''(request);'' @ [10] @
    js ''      return result;'' @ [10] @
    js ''    } else {'' @ [10] @
    js ''      throw new Error('Function '' @ functionName @ js '' is not defined or not a function');'' @ [10] @
    js ''    }'' @ [10] @
    js ''  } catch (error) {'' @ [10] @
    js ''    throw new Error('Function execution failed: ' + error.message);'' @ [10] @
    js ''  }'' @ [10] @
    js ''})();'' @ [10]"

definition general_wrapper :: "jsstring \<Rightarrow> jsstring" where
  "general_wrapper functionCode =
    [10] @
    js ''// Auto-generated wrapper for Node.js Serverless Function Handler'' @ [10] @
    js ''(async function() {'' @ [10] @
    js ''  try {'' @ [10] @
    js ''    // Set up module-like environment'' @ [10] @
    js ''    var module = { exports: {} };'' @ [10] @
    js ''    var exports = module.exports;'' @ [10] @
    js ''    '' @ [10] @
    js ''    '' @ functionCode @ [10] @
    js ''    '' @ [10] @
    js ''    // Auto-detect export pattern and call the function'' @ [10] @
    js ''    let __functionHandler;'' @ [10] @
    js ''    '' @ [10] @
    js ''    // Try module.exports patterns'' @ [10] @
    js ''    if (typeof module !== 'undefined' && module.exports) {'' @ [10] @
    js ''      __functionHandler = module.exports.default || module.exports;'' @ [10] @
    js ''    }'' @ [10] @
    js ''    '' @ [10] @
    js ''    // Try direct function reference from last line'' @ [10] @
    js ''    const codeLines = '' @ JSON_stringify_lines (split_on 10 (trim functionCode)) @ js '';'' @ [10] @
    js ''    const lastLine = codeLines[codeLines.length - 1].trim();'' @ [10] @
    js ''    if (lastLine && !lastLine.includes('(') && !lastLine.includes('{') && typeof eval('typeof ' + lastLine) === 'string' && eval('typeof ' + lastLine) === 'function') {'' @ [10] @
    js ''      try {'' @ [10] @
    js ''        __functionHandler = eval(lastLine);'' @ [10] @
    js ''      } catch (e) {'' @ [10] @
    js ''        // Ignore and continue'' @ [10] @
    js ''      }'' @ [10] @
    js ''    }'' @ [10] @
    js ''    '' @ [10] @
    js ''    // Try to find function declarations'' @ [10] @
    js ''    const functionNames = ['' @ join (js '', '') (map (\<lambda>name. [34] @ name @ [34]) (extractFunctionNames functionCode)) @ js ''];'' @ [10] @
    js ''    if (!__functionHandler && functionNames.length > 0) {'' @ [10] @
    js ''      for (const funcName of functionNames) {'' @ [10] @
    js ''        try {'' @ [10] @
    js ''          const potentialHandler = eval(funcName);'' @ [10] @
    js ''          if (typeof potentialHandler === 'function') {'' @ [10] @
    js ''            __functionHandler = potentialHandler;'' @ [10] @
    js ''            break;'' @ [10] @
    js ''          }'' @ [10] @
    js ''        } catch (e) {'' @ [10] @
    js ''          // Try next'' @ [10] @
    js ''        }'' @ [10] @
    js ''      }'' @ [10] @
    js ''    }'' @ [10] @
    js ''    '' @ [10] @
    js ''    if (typeof __functionHandler === 'function') {'' @ [10] @
    js ''      // Call handler with request'' @ [10] @
    js ''      const result = await __functionHandler(request);'' @ [10] @
    js ''      return result;'' @ [10] @
    js ''    } else {'' @ [10] @
    js ''      // List available functions for debugging'' @ [10] @
    js ''      const availableFunctions = [];'' @ [10] @
    js ''      for (const key of Object.keys(this).concat(Object.getOwnPropertyNames(this))) {'' @ [10] @
    js ''        if (typeof this[key] === 'function') {'' @ [10] @
    js ''          availableFunctions.push(key);'' @ [10] @
    js ''        }'' @ [10] @
    js ''      }'' @ [10] @
    js ''      throw new Error('No handler function found. Available functions: ' + availableFunctions.join(', ') + '. Last line: ' + lastLine);'' @ [10] @
    js ''    }'' @ [10] @
    js ''  } catch (error) {'' @ [10] @
    js ''    throw new Error('Function execution failed: ' + error.message);'' @ [10] @
    js ''  }'' @ [10] @
    js ''})();'' @ [10]"

text \<open>The last line of the trimmed source, trimmed: \<^verbatim>\<open>lastLine\<close>.\<close>

definition last_line :: "jsstring \<Rightarrow> jsstring" where
  "last_line functionCode = trim (last (split_on 10 (trim functionCode)))"

text \<open>The import map is a parameter of the source function and is not read by it.\<close>

definition wrapFunctionForNodeJS :: "jsstring \<Rightarrow> 'm \<Rightarrow> jsstring" where
  "wrapFunctionForNodeJS functionCode importMap =
     (let lastLine = last_line functionCode
      in if lastLine \<noteq> [] \<and> \<not> includes_str lastLine (js ''('')
            \<and> \<not> includes_str lastLine (js ''{'') \<and> \<not> includes_str lastLine (js '';'')
         then bare_name_wrapper functionCode lastLine
         else general_wrapper functionCode)"

section \<open>JavaScript values\<close>

text \<open>
  Payloads, return values and header values are arbitrary JavaScript values. A number is
  carried as it is; only its truthiness is ever tested. Arrays, functions and class
  instances are objects with their properties.
\<close>

datatype jsnum = Finite real | NaN | PosInfinity | NegInfinity

datatype jsval =
    Undefined
  | Null
  | Boolean bool
  | Number jsnum
  | String jsstring
  | Object "(jsstring \<times> jsval) list"

fun truthy :: "jsval \<Rightarrow> bool" where
  "truthy Undefined = False"
| "truthy Null = False"
| "truthy (Boolean b) = b"
| "truthy (Number n) = (n \<noteq> Finite 0 \<and> n \<noteq> NaN)"
| "truthy (String s) = (s \<noteq> [])"
| "truthy (Object fs) = True"

text \<open>
  Reading a property. The source reads \<^verbatim>\<open>body\<close>, \<^verbatim>\<open>status\<close> and \<^verbatim>\<open>headers\<close> only, on
  a value it has tested to be truthy or through \<^verbatim>\<open>?.\<close>; no primitive has a property of
  these names, and a property that is absent reads as \<^verbatim>\<open>undefined\<close>.
\<close>

fun get_prop :: "jsval \<Rightarrow> jsstring \<Rightarrow> jsval" where
  "get_prop (Object fs) k = (case map_of fs k of Some v \<Rightarrow> v | None \<Rightarrow> Undefined)"
| "get_prop v k = Undefined"

text \<open>
  Assigning a property of an object, and \<^verbatim>\<open>Map.prototype.set\<close>: an existing key keeps
  its place, a new key is added at the end.
\<close>

fun assoc_set :: "jsstring \<Rightarrow> 'v \<Rightarrow> (jsstring \<times> 'v) list \<Rightarrow> (jsstring \<times> 'v) list" where
  "assoc_set k v [] = [(k, v)]"
| "assoc_set k v ((k', v') # kvs) =
     (if k' = k then (k, v) # kvs else (k', v') # assoc_set k v kvs)"

text \<open>\<^verbatim>\<open>Map.prototype.delete\<close>.\<close>

definition assoc_delete :: "jsstring \<Rightarrow> (jsstring \<times> 'v) list \<Rightarrow> (jsstring \<times> 'v) list" where
  "assoc_delete k kvs = filter (\<lambda>kv. fst kv \<noteq> k) kvs"

text \<open>
  A thrown value: an \<^verbatim>\<open>Error\<close> with its message, or any other value with its
  \<^verbatim>\<open>String(...)\<close> conversion. \<open>error_text\<close> is
  \<^verbatim>\<open>error instanceof Error ? error.message : String(error)\<close>.
\<close>

datatype exn = JsError jsstring | Thrown jsstring

fun error_text :: "exn \<Rightarrow> jsstring" where
  "error_text (JsError m) = m"
| "error_text (Thrown s) = s"

section \<open>Request view and response builder\<close>

record mock_request =
  rq_method :: jsstring
  rq_url :: jsstring
  rq_headers :: "(jsstring \<times> jsval) list"
  rq_body :: jsval

text \<open>
  \<^verbatim>\<open>{'content-type': 'application/json', ...headers}\<close>: the caller's headers are
  assigned after the default. The accessors \<^verbatim>\<open>json\<close>, \<^verbatim>\<open>text\<close> and \<^verbatim>\<open>clone\<close> are
  functions of the payload and are not fields.
\<close>

definition createMockRequest :: "jsstring \<Rightarrow> jsval \<Rightarrow> (jsstring \<times> jsval) list \<Rightarrow> mock_request" where
  "createMockRequest functionName payload headers =
     \<lparr> rq_method = js ''POST'',
       rq_url = js ''/functions/v1/'' @ functionName,
       rq_headers = fold (\<lambda>kv hs. assoc_set (fst kv) (snd kv) hs) headers
                      [(js ''content-type'', String (js ''application/json''))],
       rq_body = payload \<rparr>"

text \<open>
  The response builder is a closure over three variables; its methods are the only way
  the executed function changes them.
\<close>

record mock_response =
  responseData :: jsval
  statusCode :: jsval
  responseHeaders :: "(jsstring \<times> jsval) list"

definition createMockResponse :: mock_response where
  "createMockResponse =
     \<lparr> responseData = Undefined, statusCode = Number (Finite 200), responseHeaders = [] \<rparr>"

datatype res_call =
    Json jsval
  | Text jsval
  | Status jsval
  | SetHeader jsstring jsval

text \<open>
  \<^verbatim>\<open>String.prototype.toLowerCase\<close> belongs to the runtime and is a parameter.
\<close>

fun res_apply :: "(jsstring \<Rightarrow> jsstring) \<Rightarrow> res_call \<Rightarrow> mock_response \<Rightarrow> mock_response" where
  "res_apply lower (Json d) r =
     r\<lparr> responseData := d,
        responseHeaders := assoc_set (js ''content-type'') (String (js ''application/json'')) (responseHeaders r) \<rparr>"
| "res_apply lower (Text d) r =
     r\<lparr> responseData := d,
        responseHeaders := assoc_set (js ''content-type'') (String (js ''text/plain'')) (responseHeaders r) \<rparr>"
| "res_apply lower (Status code) r = r\<lparr> statusCode := code \<rparr>"
| "res_apply lower (SetHeader k v) r =
     r\<lparr> responseHeaders := assoc_set (lower k) v (responseHeaders r) \<rparr>"

definition getData :: "mock_response \<Rightarrow> jsval" where
  "getData r = responseData r"

definition getStatusCode :: "mock_response \<Rightarrow> jsval" where
  "getStatusCode r = statusCode r"

definition getHeaders :: "mock_response \<Rightarrow> (jsstring \<times> jsval) list" where
  "getHeaders r = responseHeaders r"

section \<open>The execution context\<close>

text \<open>A module of the host, as the host's own \<^verbatim>\<open>require\<close> returns it.\<close>

datatype node_module = NodeModule jsstring

text \<open>\<^verbatim>\<open>new Response(body, init)\<close> of the sandbox.\<close>

definition MockResponse :: "jsval \<Rightarrow> jsval \<Rightarrow> jsval" where
  "MockResponse body init =
     Object [(js ''body'', body),
             (js ''status'', if truthy (get_prop init (js ''status''))
                             then get_prop init (js ''status'') else Number (Finite 200)),
             (js ''headers'', if truthy (get_prop init (js ''headers''))
                              then get_prop init (js ''headers'') else Object [])]"

text \<open>
  What \<^verbatim>\<open>createExecutionContext\<close> puts in scope besides the host's \<^verbatim>\<open>console\<close>, timers,
  \<^verbatim>\<open>JSON\<close>, \<^verbatim>\<open>Date\<close>, \<^verbatim>\<open>Math\<close>, \<^verbatim>\<open>Buffer\<close> and the three read-only fields of
  \<^verbatim>\<open>process\<close>: the request (as \<^verbatim>\<open>req\<close> and \<^verbatim>\<open>request\<close>), the builder (as \<^verbatim>\<open>res\<close> and
  \<^verbatim>\<open>response\<close>), the restricted \<^verbatim>\<open>require\<close> and the \<^verbatim>\<open>Response\<close> class.
\<close>

record execution_context =
  ctx_req :: mock_request
  ctx_res :: mock_response
  ctx_require :: "jsstring \<Rightarrow> exn + node_module"
  ctx_Response :: "jsval \<Rightarrow> jsval \<Rightarrow> jsval"

section \<open>The runtime\<close>

record script =
  script_code :: jsstring
  script_filename :: jsstring

text \<open>
  What running a compiled script gives: a value that is not a thenable, a thenable with
  the way it settles, or an exception; and the calls the script made on the builder
  before that. The script is taken to call the builder's methods, not to replace them.
\<close>

datatype settled = Fulfilled jsval | Rejected exn | Pending

datatype run_result = Value jsval | Thenable settled | Throws exn

record run =
  res_calls :: "res_call list"
  outcome :: run_result

text \<open>
  The host during one call of the handler: the file system, the compiler and the virtual
  machine of \<^verbatim>\<open>vm\<close>, the clock (\<open>clock k\<close> is the \<open>k\<close>-th reading of the call), and the
  library functions the handler calls. \<open>fs_mkdir\<close>, \<open>fs_rm\<close> and \<open>new_Script\<close> give the
  exception they raise, if any. \<open>host_require\<close> is the call \<^verbatim>\<open>require(moduleName)\<close> that
  the restricted loader makes in the handler's own module scope: it gives the module, or
  the exception of the call (a \<^verbatim>\<open>ReferenceError\<close> where that scope binds no \<^verbatim>\<open>require\<close>).
\<close>

record runtime =
  toLowerCase :: "jsstring \<Rightarrow> jsstring"
  path_join :: "jsstring \<Rightarrow> jsstring \<Rightarrow> jsstring"
  os_tmpdir :: jsstring
  fs_mkdir :: "jsstring \<Rightarrow> exn option"
  fs_rm :: "jsstring \<Rightarrow> exn option"
  new_Script :: "jsstring \<Rightarrow> jsstring \<Rightarrow> exn option"
  runInContext :: "script \<Rightarrow> execution_context \<Rightarrow> run"
  clock :: "nat \<Rightarrow> int"
  host_require :: "jsstring \<Rightarrow> exn + node_module"

text \<open>
  The restricted \<^verbatim>\<open>require\<close> of the sandbox: a name of the list goes to the host's
  \<^verbatim>\<open>require\<close>, any other name throws.
\<close>

definition allowedModules :: "jsstring list" where
  "allowedModules = [js ''crypto'', js ''util'', js ''url'', js ''querystring'']"

definition sandbox_require :: "runtime \<Rightarrow> jsstring \<Rightarrow> exn + node_module" where
  "sandbox_require rt moduleName =
     (if moduleName \<in> set allowedModules then host_require rt moduleName
      else Inl (JsError (js ''Module '' @ [39] @ moduleName @ [39] @
                         js '' is not allowed in serverless functions'')))"

definition createExecutionContext ::
  "runtime \<Rightarrow> mock_request \<Rightarrow> mock_response \<Rightarrow> execution_context" where
  "createExecutionContext rt request response =
     \<lparr> ctx_req = request, ctx_res = response,
       ctx_require = sandbox_require rt, ctx_Response = MockResponse \<rparr>"

section \<open>The result normalizer\<close>

definition extractResponseData :: "jsval \<Rightarrow> mock_response \<Rightarrow> jsval" where
  "extractResponseData result res =
     (if truthy result \<and> get_prop result (js ''body'') \<noteq> Undefined
         \<and> get_prop result (js ''status'') \<noteq> Undefined
      then Object [(js ''data'', get_prop result (js ''body'')),
                   (js ''status'', get_prop result (js ''status'')),
                   (js ''headers'', if truthy (get_prop result (js ''headers''))
                                    then get_prop result (js ''headers'') else Object [])]
      else if getData res \<noteq> Undefined
      then Object [(js ''data'', getData res),
                   (js ''status'', getStatusCode res),
                   (js ''headers'', Object (getHeaders res))]
      else result)"

section \<open>The sandboxed executor\<close>

datatype fn_status = status_deployed | status_error

record deployed_function =
  fn_name :: jsstring
  fn_originalCode :: jsstring
  fn_wrappedCode :: jsstring
  fn_importMap :: "(jsstring \<times> jsval) list"
  fn_deployedAt :: int
  fn_directory :: jsstring
  fn_status :: fn_status
  fn_compiledScript :: script

text \<open>
  \<^verbatim>\<open>executeInVM\<close>: the promise it returns resolves with the normalized result, rejects
  with the exception, or (\<open>None\<close>) never settles. The builder is returned as the run left
  it, for the caller reads its headers afterwards.
\<close>

definition executeInVM ::
  "runtime \<Rightarrow> deployed_function \<Rightarrow> execution_context \<Rightarrow> (exn + jsval) option \<times> mock_response" where
  "executeInVM rt func context =
     (let r = runInContext rt (fn_compiledScript func) context;
          res = fold (res_apply (toLowerCase rt)) (res_calls r) (ctx_res context)
      in (case outcome r of
            Throws e \<Rightarrow> Some (Inl e)
          | Thenable (Fulfilled asyncResult) \<Rightarrow> Some (Inr (extractResponseData asyncResult res))
          | Thenable (Rejected e) \<Rightarrow> Some (Inl e)
          | Thenable Pending \<Rightarrow> None
          | Value result \<Rightarrow> Some (Inr (extractResponseData result res)),
          res))"

section \<open>The function registry\<close>

text \<open>
  The handler: the \<^verbatim>\<open>Map\<close> of deployed functions in insertion order, the scratch
  directory, and what it has written with \<^verbatim>\<open>console.warn\<close> (a text and the exception
  logged with it, if any).
\<close>

record handler =
  h_functions :: "(jsstring \<times> deployed_function) list"
  tempDir :: jsstring
  console_warn :: "(jsstring \<times> exn option) list"

definition new_handler :: "runtime \<Rightarrow> handler" where
  "new_handler rt =
     (let dir = path_join rt (os_tmpdir rt) (js ''mcp-nodejs-functions'')
      in \<lparr> h_functions = [], tempDir = dir,
           console_warn = (case fs_mkdir rt dir of
                             None \<Rightarrow> []
                           | Some e \<Rightarrow> [(js ''Could not create temp directory:'', Some e)]) \<rparr>)"

definition is_name_char :: "nat \<Rightarrow> bool" where
  "is_name_char c = ((97 \<le> c \<and> c \<le> 122) \<or> (48 \<le> c \<and> c \<le> 57) \<or> c = 45)"

text \<open>\<^verbatim>\<open>/^[a-z0-9-]+$/.test(name) && name.length >= 1 && name.length <= 50\<close>.\<close>

definition isValidFunctionName :: "jsstring \<Rightarrow> bool" where
  "isValidFunctionName n =
     ((n \<noteq> [] \<and> list_all is_name_char n) \<and> length n \<ge> 1 \<and> length n \<le> 50)"

definition dangerousPatterns :: "jsstring list" where
  "dangerousPatterns =
     [js ''require('' @ [34] @ js ''fs'' @ [34] @ js '')'',
      js ''require('' @ [34] @ js ''child_process'' @ [34] @ js '')'',
      js ''eval('', js ''Function('', js ''process.exit'']"

text \<open>
  \<^verbatim>\<open>validateFunctionCode\<close> throws, or returns after warning of each pattern found: the
  result is the exception or the warnings.
\<close>

definition validateFunctionCode :: "jsstring \<Rightarrow> exn + (jsstring \<times> exn option) list" where
  "validateFunctionCode code =
     (if trim code = [] then Inl (JsError (js ''Function code cannot be empty''))
      else if length code > 100000 then Inl (JsError (js ''Function code too large (max 100KB)''))
      else Inr (map (\<lambda>pattern.
                  (js ''Warning: Function code contains potentially unsafe pattern: '' @ pattern, None))
                (filter (includes_str code) dangerousPatterns)))"

record deployment_result =
  dr_success :: bool
  dr_functionName :: jsstring
  dr_message :: "jsstring option"
  dr_error :: "jsstring option"
  dr_deployedAt :: "int option"
  dr_functionUrl :: "jsstring option"
  dr_executionRuntime :: "jsstring option"
  dr_codeLength :: "nat option"

definition deploy_failure :: "jsstring \<Rightarrow> exn \<Rightarrow> deployment_result" where
  "deploy_failure functionName e =
     \<lparr> dr_success = False, dr_functionName = functionName, dr_message = None,
       dr_error = Some (error_text e), dr_deployedAt = None, dr_functionUrl = None,
       dr_executionRuntime = None, dr_codeLength = None \<rparr>"

definition deployFunction ::
  "runtime \<Rightarrow> handler \<Rightarrow> jsstring \<Rightarrow> jsstring \<Rightarrow> (jsstring \<times> jsval) list
     \<Rightarrow> deployment_result \<times> handler" where
  "deployFunction rt h functionName functionCode importMap =
     (if \<not> isValidFunctionName functionName
      then (deploy_failure functionName
              (JsError (js ''Invalid function name. Use only letters, numbers, and hyphens.'')), h)
      else (case validateFunctionCode functionCode of
        Inl e \<Rightarrow> (deploy_failure functionName e, h)
      | Inr warnings \<Rightarrow>
         (let h1 = h\<lparr> console_warn := console_warn h @ warnings \<rparr>;
              functionDir = path_join rt (tempDir h) functionName
          in (case fs_mkdir rt functionDir of
            Some e \<Rightarrow> (deploy_failure functionName e, h1)
          | None \<Rightarrow>
             (let wrappedCode = wrapFunctionForNodeJS functionCode importMap
              in (case new_Script rt wrappedCode (functionName @ js ''.js'') of
                Some e \<Rightarrow> (deploy_failure functionName e, h1)
              | None \<Rightarrow>
                 (let deployedFunction =
                        \<lparr> fn_name = functionName, fn_originalCode = functionCode,
                          fn_wrappedCode = wrappedCode, fn_importMap = importMap,
                          fn_deployedAt = clock rt 0, fn_directory = functionDir,
                          fn_status = status_deployed,
                          fn_compiledScript =
                            \<lparr> script_code = wrappedCode,
                              script_filename = functionName @ js ''.js'' \<rparr> \<rparr>
                  in (\<lparr> dr_success = True, dr_functionName = functionName,
                         dr_message = Some (js ''Function '' @ [39] @ functionName @ [39] @
                                            js '' deployed successfully to Node.js handler''),
                         dr_error = None,
                         dr_deployedAt = Some (fn_deployedAt deployedFunction),
                         dr_functionUrl = Some (js ''/functions/v1/'' @ functionName),
                         dr_executionRuntime = Some (js ''nodejs''),
                         dr_codeLength = Some (length functionCode) \<rparr>,
                      h1\<lparr> h_functions := assoc_set functionName deployedFunction (h_functions h1) \<rparr>))))))))"

text \<open>A parameter with a default: the default is taken when the argument is \<^verbatim>\<open>undefined\<close>.\<close>

definition default_arg :: "jsval \<Rightarrow> jsval \<Rightarrow> jsval" where
  "default_arg v d = (if v = Undefined then d else v)"

record execution_result =
  er_success :: bool
  er_functionName :: jsstring
  er_data :: "jsval option"
  er_error :: "jsstring option"
  er_statusCode :: "nat option"
  er_executionTime :: "int option"
  er_runtime :: "jsstring option"
  er_timestamp :: "int option"
  er_availableFunctions :: "jsstring list option"
  er_headers :: "(jsstring \<times> jsval) list option"

text \<open>
  \<^verbatim>\<open>executeFunction\<close> does not change the handler. \<open>None\<close>: the promise of the virtual
  machine never settles and the call does not return.
\<close>

definition executeFunction ::
  "runtime \<Rightarrow> handler \<Rightarrow> jsstring \<Rightarrow> jsval \<Rightarrow> (jsstring \<times> jsval) list
     \<Rightarrow> execution_result option" where
  "executeFunction rt h functionName payload headers =
     (case map_of (h_functions h) functionName of
        None \<Rightarrow>
          Some \<lparr> er_success = False, er_functionName = functionName, er_data = None,
                 er_error = Some (js ''Function '' @ [39] @ functionName @ [39] @
                                  js '' not found. Deploy it first using deployFunction().''),
                 er_statusCode = None, er_executionTime = None,
                 er_runtime = Some (js ''nodejs''), er_timestamp = Some (clock rt 0),
                 er_availableFunctions = Some (map fst (h_functions h)), er_headers = None \<rparr>
      | Some deployedFunction \<Rightarrow>
          (let startTime = clock rt 0;
               mockRequest = createMockRequest functionName (default_arg payload (Object [])) headers;
               mockResponse = createMockResponse;
               context = createExecutionContext rt mockRequest mockResponse
           in (case executeInVM rt deployedFunction context of
                 (None, res) \<Rightarrow> None
               | (Some (Inr result), res) \<Rightarrow>
                   Some \<lparr> er_success = True, er_functionName = functionName,
                          er_data = Some result, er_error = None, er_statusCode = Some 200,
                          er_executionTime = Some (clock rt 1 - startTime),
                          er_runtime = Some (js ''nodejs''), er_timestamp = Some (clock rt 2),
                          er_availableFunctions = None, er_headers = Some (getHeaders res) \<rparr>
               | (Some (Inl e), res) \<Rightarrow>
                   Some \<lparr> er_success = False, er_functionName = functionName, er_data = None,
                          er_error = Some (error_text e), er_statusCode = None,
                          er_executionTime = None, er_runtime = Some (js ''nodejs''),
                          er_timestamp = Some (clock rt 1), er_availableFunctions = None,
                          er_headers = None \<rparr>)))"

record function_summary =
  fs_name :: jsstring
  fs_deployedAt :: int
  fs_status :: fn_status
  fs_hasImportMap :: bool
  fs_codeLength :: nat
  fs_runtime :: jsstring

definition listFunctions :: "handler \<Rightarrow> function_summary list" where
  "listFunctions h =
     map (\<lambda>func. \<lparr> fs_name = fn_name func, fs_deployedAt = fn_deployedAt func,
                    fs_status = fn_status func, fs_hasImportMap = (fn_importMap func \<noteq> []),
                    fs_codeLength = length (fn_originalCode func), fs_runtime = js ''nodejs'' \<rparr>)
         (map snd (h_functions h))"

definition getFunctionDetails :: "handler \<Rightarrow> jsstring \<Rightarrow> deployed_function option" where
  "getFunctionDetails h functionName = map_of (h_functions h) functionName"

text \<open>
  \<^verbatim>\<open>removeFunction\<close>: when \<^verbatim>\<open>fs.rm\<close> rejects, the handler warns and deletes the entry
  all the same.
\<close>

definition removeFunction :: "runtime \<Rightarrow> handler \<Rightarrow> jsstring \<Rightarrow> bool \<times> handler" where
  "removeFunction rt h functionName =
     (case map_of (h_functions h) functionName of
        None \<Rightarrow> (False, h)
      | Some deployedFunction \<Rightarrow>
          (case fs_rm rt (fn_directory deployedFunction) of
             None \<Rightarrow> (True, h\<lparr> h_functions := assoc_delete functionName (h_functions h) \<rparr>)
           | Some e \<Rightarrow>
               (True, h\<lparr> console_warn := console_warn h @
                            [(js ''Could not remove function files for '' @ [39] @ functionName
                                @ [39] @ js '':'', Some e)],
                          h_functions := assoc_delete functionName (h_functions h) \<rparr>)))"

section \<open>Notions of the specification\<close>

text \<open>A name in the words of the specification: \<^verbatim>\<open>^[a-z0-9-]{1,50}$\<close>.\<close>

definition matches_name_pattern :: "jsstring \<Rightarrow> bool" where
  "matches_name_pattern n =
     (1 \<le> length n \<and> length n \<le> 50
      \<and> (\<forall>c \<in> set n. c \<in> {97..122} \<or> c \<in> {48..57} \<or> c = 45))"

text \<open>
  The run of a deployed function in the context \<^verbatim>\<open>executeFunction\<close> builds for it, the
  builder after a sequence of calls, and the value a run settles with.
\<close>

definition script_run ::
  "runtime \<Rightarrow> deployed_function \<Rightarrow> jsstring \<Rightarrow> jsval \<Rightarrow> (jsstring \<times> jsval) list \<Rightarrow> run" where
  "script_run rt f n payload headers =
     runInContext rt (fn_compiledScript f)
       (createExecutionContext rt
          (createMockRequest n (default_arg payload (Object [])) headers) createMockResponse)"

definition builder_after :: "runtime \<Rightarrow> res_call list \<Rightarrow> mock_response" where
  "builder_after rt calls = fold (res_apply (toLowerCase rt)) calls createMockResponse"

fun settles_with :: "run_result \<Rightarrow> jsval \<Rightarrow> bool" where
  "settles_with (Value v) r = (v = r)"
| "settles_with (Thenable (Fulfilled v)) r = (v = r)"
| "settles_with other r = False"

text \<open>
  Shape A in the words of the specification: an object with both a \<^verbatim>\<open>body\<close> field and a
  \<^verbatim>\<open>status\<close> field defined. A call that writes the builder's data.
\<close>

definition shape_A :: "jsval \<Rightarrow> bool" where
  "shape_A v =
     (case v of
        Object fs \<Rightarrow>
          (case map_of fs (js ''body'') of
             None \<Rightarrow> False
           | Some b \<Rightarrow> b \<noteq> Undefined \<and>
               (case map_of fs (js ''status'') of None \<Rightarrow> False | Some s \<Rightarrow> s \<noteq> Undefined))
      | other \<Rightarrow> False)"

fun is_write :: "res_call \<Rightarrow> bool" where
  "is_write (Json d) = True"
| "is_write (Text d) = True"
| "is_write other = False"

text \<open>A call that sets the builder's status.\<close>

fun is_status :: "res_call \<Rightarrow> bool" where
  "is_status (Status code) = True"
| "is_status other = False"

text \<open>
  The final non-blank line of the trimmed source, and a line that holds text and no
  parenthesis, brace or semicolon.
\<close>

definition final_nonblank_line :: "jsstring \<Rightarrow> jsstring option" where
  "final_nonblank_line code =
     (case filter (\<lambda>l. \<not> list_all is_ws l) (split_on 10 (trim code)) of
        [] \<Rightarrow> None
      | l # ls \<Rightarrow> Some (last (l # ls)))"

definition is_bare_name :: "jsstring \<Rightarrow> bool" where
  "is_bare_name s =
     (s \<noteq> [] \<and> 40 \<notin> set s \<and> 41 \<notin> set s \<and> 123 \<notin> set s \<and> 125 \<notin> set s \<and> 59 \<notin> set s)"

text \<open>
  Names declared one after the other in a text: each name stands after one of the four
  keywords and white space, an assigned one before \<^verbatim>\<open>=\<close>, and the next names are
  declared in the text after it. Nothing is said of the nesting depth.
\<close>

definition declaration_keywords :: "jsstring set" where
  "declaration_keywords = {js ''function'', js ''const'', js ''let'', js ''var''}"

inductive declared_in_order :: "jsstring \<Rightarrow> jsstring list \<Rightarrow> bool" where
  no_more: "declared_in_order code []"
| declared:
    "\<lbrakk> code = pre @ kw @ sp @ name @ post;
       kw \<in> declaration_keywords;
       sp \<noteq> []; list_all is_ws sp;
       name \<noteq> []; list_all is_word name;
       kw = js ''function'' \<or> (\<exists>sp' post'. list_all is_ws sp' \<and> post = sp' @ [61] @ post');
       name \<noteq> js ''require''; name \<noteq> js ''module'';
       declared_in_order post names \<rbrakk>
     \<Longrightarrow> declared_in_order code (name # names)"

text \<open>
  A declaration at the start of a text, with its name and the text after it: \<^verbatim>\<open>function\<close>,
  white space and the whole word that follows; or \<^verbatim>\<open>const\<close>, \<^verbatim>\<open>let\<close> or \<^verbatim>\<open>var\<close>, white
  space, a word, optional white space and \<^verbatim>\<open>=\<close>.
\<close>

definition declaration_at :: "jsstring \<Rightarrow> jsstring \<Rightarrow> jsstring \<Rightarrow> bool" where
  "declaration_at s name rest =
     (\<exists>sp. sp \<noteq> [] \<and> list_all is_ws sp \<and> name \<noteq> [] \<and> list_all is_word name
        \<and> ((s = js ''function'' @ sp @ name @ rest \<and> (rest = [] \<or> \<not> is_word (hd rest)))
           \<or> (\<exists>kw sp'. kw \<in> {js ''const'', js ''let'', js ''var''} \<and> list_all is_ws sp'
                 \<and> s = kw @ sp @ name @ sp' @ [61] @ rest)))"


section \<open>Example inputs\<close>

text \<open>
  A host whose file system creates every directory, whose \<^verbatim>\<open>fs.rm\<close> fails with the given
  exception if any, whose compiler accepts every script, whose virtual machine runs
  every script as the given run, and whose \<^verbatim>\<open>require\<close> returns the module of the name;
  a handler holding one function.
\<close>

definition example_code :: jsstring where
  "example_code = js ''function add(req){ return req.body.a + req.body.b }'' @ [10] @ js ''add''"

definition example_function :: deployed_function where
  "example_function =
     \<lparr> fn_name = js ''adder'', fn_originalCode = example_code,
       fn_wrappedCode = wrapFunctionForNodeJS example_code ([] :: (jsstring \<times> jsval) list),
       fn_importMap = [], fn_deployedAt = 0,
       fn_directory = js ''/tmp/mcp-nodejs-functions/adder'', fn_status = status_deployed,
       fn_compiledScript =
         \<lparr> script_code = wrapFunctionForNodeJS example_code ([] :: (jsstring \<times> jsval) list),
           script_filename = js ''adder.js'' \<rparr> \<rparr>"

definition example_handler :: handler where
  "example_handler =
     \<lparr> h_functions = [(js ''adder'', example_function)],
       tempDir = js ''/tmp/mcp-nodejs-functions'', console_warn = [] \<rparr>"

definition example_host :: "exn option \<Rightarrow> run \<Rightarrow> runtime" where
  "example_host rm_error r =
     \<lparr> toLowerCase = (\<lambda>s. s), path_join = (\<lambda>a b. a @ js ''/'' @ b), os_tmpdir = js ''/tmp'',
       fs_mkdir = (\<lambda>p. None), fs_rm = (\<lambda>p. rm_error), new_Script = (\<lambda>c f. None),
       runInContext = (\<lambda>s c. r), clock = (\<lambda>k. int k),
       host_require = (\<lambda>m. Inr (NodeModule m)) \<rparr>"

definition status_then_json :: run where
  "status_then_json =
     \<lparr> res_calls = [Status (Number (Finite 404)), Json (Object [(js ''ok'', Boolean True)])],
       outcome = Thenable (Fulfilled Undefined) \<rparr>"

text \<open>
  Runs: the function calls \<^verbatim>\<open>res.json({ok: true})\<close> and returns \<^verbatim>\<open>{x: 1}\<close>; it calls
  \<^verbatim>\<open>res.json(undefined)\<close> and returns \<^verbatim>\<open>{data: 5}\<close>; it calls \<^verbatim>\<open>res.json(1)\<close>, then
  \<^verbatim>\<open>res.text('hi')\<close>, and returns \<^verbatim>\<open>{}\<close>.
\<close>

definition json_and_plain_return :: run where
  "json_and_plain_return =
     \<lparr> res_calls = [Json (Object [(js ''ok'', Boolean True)])],
       outcome = Value (Object [(js ''x'', Number (Finite 1))]) \<rparr>"

definition json_undefined_run :: run where
  "json_undefined_run =
     \<lparr> res_calls = [Json Undefined], outcome = Value (Object [(js ''data'', Number (Finite 5))]) \<rparr>"

definition json_then_text_run :: run where
  "json_then_text_run =
     \<lparr> res_calls = [Json (Number (Finite 1)), Text (String (js ''hi''))],
       outcome = Value (Object []) \<rparr>"

text \<open>
  More runs: the function calls \<^verbatim>\<open>res.status(404)\<close> and returns \<^verbatim>\<open>5\<close>; it returns
  \<^verbatim>\<open>new Response('gone', {status: 404})\<close>; its promise never settles.
\<close>

definition status_only_run :: run where
  "status_only_run =
     \<lparr> res_calls = [Status (Number (Finite 404))], outcome = Value (Number (Finite 5)) \<rparr>"

definition response_404_run :: run where
  "response_404_run =
     \<lparr> res_calls = [],
       outcome = Value (MockResponse (String (js ''gone''))
                          (Object [(js ''status'', Number (Finite 404))])) \<rparr>"



text \<open>
  Sources: a function declaration that ends with its closing brace; a nested declaration;
  an exported asynchronous function that awaits a promise nobody resolves.
\<close>

definition closing_brace_code :: jsstring where
  "closing_brace_code = js ''function handler(req) {'' @ [10] @ js ''  return 1'' @ [10] @ js ''}''"

definition nested_code :: jsstring where
  "nested_code = js ''function outer() {'' @ [10] @ js ''  const inner = 1;'' @ [10] @ js ''}''"


section \<open>Auxiliary facts\<close>

subsection \<open>Association lists\<close>

lemma map_of_absent: "k \<notin> fst ` set kvs \<Longrightarrow> map_of kvs k = None"
  by (simp add: map_of_eq_None_iff)

lemma map_of_assoc_set_same: "map_of (assoc_set k v kvs) k = Some v"
  by (induction kvs) auto



lemma keys_assoc_delete: "fst ` set (assoc_delete k kvs) = fst ` set kvs - {k}"
  by (auto simp: assoc_delete_def)

lemma map_of_assoc_delete_other: "k' \<noteq> k \<Longrightarrow> map_of (assoc_delete k kvs) k' = map_of kvs k'"
  by (induction kvs) (auto simp: assoc_delete_def)

subsection \<open>Deployment\<close>

lemma isValidFunctionName_iff: "isValidFunctionName n \<longleftrightarrow> matches_name_pattern n"
  by (auto simp: isValidFunctionName_def matches_name_pattern_def is_name_char_def list_all_iff)

lemma error_text_nonempty_validation:
  "validateFunctionCode code = Inl e \<Longrightarrow> error_text e \<noteq> []"
  by (auto simp: validateFunctionCode_def split: if_splits)

lemma deploy_success_iff:
  "dr_success (fst (deployFunction rt h n code im)) \<longleftrightarrow>
     isValidFunctionName n \<and> trim code \<noteq> [] \<and> length code \<le> 100000
     \<and> fs_mkdir rt (path_join rt (tempDir h) n) = None
     \<and> new_Script rt (wrapFunctionForNodeJS code im) (n @ js ''.js'') = None"
  by (auto simp: deployFunction_def deploy_failure_def validateFunctionCode_def Let_def
      split: option.splits)

lemma deploy_failure_reason:
  assumes "\<not> isValidFunctionName n \<or> trim code = [] \<or> length code > 100000"
  shows "dr_error (fst (deployFunction rt h n code im)) =
     Some (if \<not> isValidFunctionName n
           then js ''Invalid function name. Use only letters, numbers, and hyphens.''
           else if trim code = [] then js ''Function code cannot be empty''
           else js ''Function code too large (max 100KB)'')"
  using assms
  by (auto simp: deployFunction_def deploy_failure_def validateFunctionCode_def)

lemma deploy_success_entry:
  assumes "dr_success (fst (deployFunction rt h n code im))"
  shows "\<exists>f. map_of (h_functions (snd (deployFunction rt h n code im))) n = Some f
            \<and> fn_name f = n \<and> fn_originalCode f = code
            \<and> fn_wrappedCode f = wrapFunctionForNodeJS code im"
proof -
  from assms have c: "isValidFunctionName n" "trim code \<noteq> []" "length code \<le> 100000"
    "fs_mkdir rt (path_join rt (tempDir h) n) = None"
    "new_Script rt (wrapFunctionForNodeJS code im) (n @ js ''.js'') = None"
    unfolding deploy_success_iff by blast+
  then show ?thesis
    by (simp add: deployFunction_def validateFunctionCode_def Let_def map_of_assoc_set_same)
qed

subsection \<open>Execution\<close>

lemma executeFunction_found:
  assumes "map_of (h_functions h) n = Some f"
  shows "executeFunction rt h n payload headers =
     (case outcome (script_run rt f n payload headers) of
        Throws e \<Rightarrow>
          Some \<lparr> er_success = False, er_functionName = n, er_data = None,
                 er_error = Some (error_text e), er_statusCode = None,
                 er_executionTime = None, er_runtime = Some (js ''nodejs''),
                 er_timestamp = Some (clock rt 1), er_availableFunctions = None,
                 er_headers = None \<rparr>
      | Thenable (Rejected e) \<Rightarrow>
          Some \<lparr> er_success = False, er_functionName = n, er_data = None,
                 er_error = Some (error_text e), er_statusCode = None,
                 er_executionTime = None, er_runtime = Some (js ''nodejs''),
                 er_timestamp = Some (clock rt 1), er_availableFunctions = None,
                 er_headers = None \<rparr>
      | Thenable Pending \<Rightarrow> None
      | Thenable (Fulfilled v) \<Rightarrow>
          Some \<lparr> er_success = True, er_functionName = n,
                 er_data = Some (extractResponseData v
                    (builder_after rt (res_calls (script_run rt f n payload headers)))),
                 er_error = None, er_statusCode = Some 200,
                 er_executionTime = Some (clock rt 1 - clock rt 0),
                 er_runtime = Some (js ''nodejs''), er_timestamp = Some (clock rt 2),
                 er_availableFunctions = None,
                 er_headers = Some (getHeaders
                    (builder_after rt (res_calls (script_run rt f n payload headers)))) \<rparr>
      | Value v \<Rightarrow>
          Some \<lparr> er_success = True, er_functionName = n,
                 er_data = Some (extractResponseData v
                    (builder_after rt (res_calls (script_run rt f n payload headers)))),
                 er_error = None, er_statusCode = Some 200,
                 er_executionTime = Some (clock rt 1 - clock rt 0),
                 er_runtime = Some (js ''nodejs''), er_timestamp = Some (clock rt 2),
                 er_availableFunctions = None,
                 er_headers = Some (getHeaders
                    (builder_after rt (res_calls (script_run rt f n payload headers)))) \<rparr>)"
  using assms
  by (simp add: executeFunction_def executeInVM_def script_run_def builder_after_def Let_def
        createExecutionContext_def split: run_result.splits settled.splits)

lemma executeFunction_settled:
  assumes "map_of (h_functions h) n = Some f"
    and "settles_with (outcome (script_run rt f n payload headers)) ret"
  shows "executeFunction rt h n payload headers =
          Some \<lparr> er_success = True, er_functionName = n,
                 er_data = Some (extractResponseData ret
                    (builder_after rt (res_calls (script_run rt f n payload headers)))),
                 er_error = None, er_statusCode = Some 200,
                 er_executionTime = Some (clock rt 1 - clock rt 0),
                 er_runtime = Some (js ''nodejs''), er_timestamp = Some (clock rt 2),
                 er_availableFunctions = None,
                 er_headers = Some (getHeaders
                    (builder_after rt (res_calls (script_run rt f n payload headers)))) \<rparr>"
proof (cases "outcome (script_run rt f n payload headers)")
  case (Value v)
  with assms(2) show ?thesis unfolding executeFunction_found[OF assms(1)] by simp
next
  case (Thenable s)
  with assms(2) show ?thesis unfolding executeFunction_found[OF assms(1)] by (cases s) simp_all
next
  case (Throws e)
  with assms(2) show ?thesis by simp
qed




subsection \<open>The result shapes\<close>

lemma shape_A_iff:
  "truthy result \<and> get_prop result (js ''body'') \<noteq> Undefined
     \<and> get_prop result (js ''status'') \<noteq> Undefined \<longleftrightarrow> shape_A result"
  by (cases result) (auto simp: shape_A_def split: option.splits)

lemma extractResponseData_shapes:
  "extractResponseData result res =
     (if shape_A result
      then Object [(js ''data'', get_prop result (js ''body'')),
                   (js ''status'', get_prop result (js ''status'')),
                   (js ''headers'', if truthy (get_prop result (js ''headers''))
                                    then get_prop result (js ''headers'') else Object [])]
      else if responseData res \<noteq> Undefined
      then Object [(js ''data'', responseData res),
                   (js ''status'', statusCode res),
                   (js ''headers'', Object (responseHeaders res))]
      else result)"
  unfolding extractResponseData_def shape_A_iff getData_def getStatusCode_def getHeaders_def
  by (rule refl)

lemma responseData_no_write:
  "\<not> list_ex is_write calls \<Longrightarrow> responseData (fold (res_apply lower) calls r) = responseData r"
proof (induction calls arbitrary: r)
  case Nil
  show ?case by simp
next
  case (Cons c calls)
  then show ?case by (cases c) simp_all
qed

lemma responseData_last_json:
  assumes "\<not> list_ex is_write post"
  shows "responseData (fold (res_apply lower) (pre @ Json v # post) r) = v"
  using responseData_no_write[OF assms] by simp

lemma statusCode_no_status:
  "\<not> list_ex is_status calls \<Longrightarrow> statusCode (fold (res_apply lower) calls r) = statusCode r"
proof (induction calls arbitrary: r)
  case Nil
  show ?case by simp
next
  case (Cons c calls)
  then show ?case by (cases c) simp_all
qed

lemma statusCode_last_status:
  assumes "\<not> list_ex is_status post"
  shows "statusCode (fold (res_apply lower) (pre @ Status s # post) r) = s"
  using statusCode_no_status[OF assms] by simp

lemma truthy_defined: "truthy v \<Longrightarrow> v \<noteq> Undefined"
  by (cases v) auto

lemma MockResponse_status:
  "get_prop (MockResponse body init) (js ''status'') =
     (if truthy (get_prop init (js ''status'')) then get_prop init (js ''status'')
      else Number (Finite 200))"
  by (simp add: MockResponse_def)

lemma MockResponse_shape_A: "body \<noteq> Undefined \<Longrightarrow> shape_A (MockResponse body init)"
  by (auto simp: MockResponse_def shape_A_def dest: truthy_defined)

subsection \<open>The last line of the trimmed source\<close>

lemma trim_last_not_ws:
  assumes "trim s \<noteq> []"
  shows "\<not> is_ws (last (trim s))"
proof -
  let ?D = "dropWhile is_ws (rev (dropWhile is_ws s))"
  from assms have "?D \<noteq> []" by (simp add: trim_def)
  then have "\<not> is_ws (hd ?D)" by (rule hd_dropWhile)
  moreover from \<open>?D \<noteq> []\<close> have "last (trim s) = hd ?D"
    by (simp add: trim_def last_rev)
  ultimately show ?thesis by simp
qed

lemma split_on_nonempty: "split_on d s \<noteq> []"
  by (induction s) (auto split: list.splits)

lemma split_on_snoc:
  "c \<noteq> d \<Longrightarrow> split_on d (xs @ [c]) = butlast (split_on d xs) @ [last (split_on d xs) @ [c]]"
proof (induction xs)
  case Nil
  then show ?case by simp
next
  case (Cons x xs)
  obtain l ls where s: "split_on d xs = l # ls"
    using split_on_nonempty[of d xs] by (cases "split_on d xs") auto
  from Cons show ?case
    by (cases ls) (auto simp: s)
qed

lemma last_split_on:
  assumes "t \<noteq> []" and "last t \<noteq> d"
  shows "last (split_on d t) \<noteq> [] \<and> last (last (split_on d t)) = last t"
proof -
  from assms(1) obtain xs c where t: "t = xs @ [c]" by (cases t rule: rev_cases) auto
  with assms(2) have "c \<noteq> d" by simp
  from split_on_snoc[OF this, of xs] show ?thesis unfolding t by simp
qed

lemma last_filter_keep: "xs \<noteq> [] \<Longrightarrow> P (last xs) \<Longrightarrow> last (filter P xs) = last xs"
  by (cases xs rule: rev_cases) auto

lemma last_line_nonblank:
  assumes "trim code \<noteq> []"
  shows "\<not> list_all is_ws (last (split_on 10 (trim code)))"
proof -
  from trim_last_not_ws[OF assms] have nw: "\<not> is_ws (last (trim code))" .
  then have "last (trim code) \<noteq> 10" by (auto simp: is_ws_def)
  from last_split_on[OF assms this]
  have ne: "last (split_on 10 (trim code)) \<noteq> []"
    and l: "last (last (split_on 10 (trim code))) = last (trim code)" by blast+
  from ne have "last (last (split_on 10 (trim code))) \<in> set (last (split_on 10 (trim code)))"
    by (rule last_in_set)
  with nw l show ?thesis by (auto simp: list_all_iff)
qed

lemma final_nonblank_line_Some:
  assumes "final_nonblank_line code = Some l"
  shows "l = last (split_on 10 (trim code))"
proof -
  let ?S = "split_on 10 (trim code)"
  let ?P = "\<lambda>l. \<not> list_all is_ws l"
  from assms have f: "filter ?P ?S \<noteq> []" and l: "l = last (filter ?P ?S)"
    by (auto simp: final_nonblank_line_def split: list.splits)
  have "trim code \<noteq> []"
  proof
    assume "trim code = []"
    then have "filter ?P ?S = []" by simp
    with f show False by simp
  qed
  from last_line_nonblank[OF this] have "last (filter ?P ?S) = last ?S"
    by (rule last_filter_keep[OF split_on_nonempty])
  with l show ?thesis by simp
qed

lemma final_nonblank_line_None:
  assumes "final_nonblank_line code = None"
  shows "trim code = []"
proof (rule ccontr)
  let ?S = "split_on 10 (trim code)"
  assume "trim code \<noteq> []"
  from last_line_nonblank[OF this] have "\<not> list_all is_ws (last ?S)" .
  moreover have "last ?S \<in> set ?S" by (rule last_in_set[OF split_on_nonempty])
  ultimately have "filter (\<lambda>l. \<not> list_all is_ws l) ?S \<noteq> []"
    by (auto simp: filter_empty_conv)
  with assms show False
    by (auto simp: final_nonblank_line_def split: list.splits)
qed

lemma includes_str_single: "includes_str s [c] \<longleftrightarrow> c \<in> set s"
  by (induction s) auto

lemma in_set_dropWhile: "x \<in> set xs \<Longrightarrow> \<not> P x \<Longrightarrow> x \<in> set (dropWhile P xs)"
  by (induction xs) auto

lemma in_set_trim: "c \<in> set s \<Longrightarrow> \<not> is_ws c \<Longrightarrow> c \<in> set (trim s)"
  by (simp add: trim_def in_set_dropWhile)

subsection \<open>The matcher and the scan\<close>

lemma strip_prefix_Some: "strip_prefix kw s = Some r \<Longrightarrow> s = kw @ r"
  by (auto simp: strip_prefix_def split: if_splits) (metis append_take_drop_id)

lemma strip_prefix_append: "strip_prefix kw (kw @ r) = Some r"
  by (simp add: strip_prefix_def)

lemma strip_prefix_hd:
  assumes "strip_prefix kw s = Some r" and "kw \<noteq> []"
  shows "hd s = hd kw"
  using strip_prefix_Some[OF assms(1)] assms(2) by simp

lemma list_all_takeWhile: "list_all P (takeWhile P xs)"
  by (induction xs) auto

lemma takeWhile_exact:
  assumes "list_all P a" and "b = [] \<or> \<not> P (hd b)"
  shows "takeWhile P (a @ b) = a" and "dropWhile P (a @ b) = b"
proof -
  from assms(1) have a: "\<forall>x \<in> set a. P x" by (simp add: list_all_iff)
  from assms(2) have "takeWhile P b = []" by (cases b) auto
  with a show "takeWhile P (a @ b) = a" by (simp add: takeWhile_append2)
  from assms(2) have "dropWhile P b = b" by (cases b) auto
  with a show "dropWhile P (a @ b) = b" by (simp add: dropWhile_append2)
qed

lemma dropWhile_stops: "dropWhile P xs = [] \<or> \<not> P (hd (dropWhile P xs))"
  using hd_dropWhile[of P xs] by blast

lemma word_not_ws: "is_word c \<Longrightarrow> \<not> is_ws c"
  by (auto simp: is_word_def is_ws_def)

lemma not_Some_None: "(\<And>m. x \<noteq> Some m) \<Longrightarrow> x = None"
  by (cases x) auto

lemma match_function_decomp:
  assumes "match_function s = Some (name, rest)"
  shows "\<exists>sp. s = js ''function'' @ sp @ name @ rest \<and> sp \<noteq> [] \<and> list_all is_ws sp
              \<and> name \<noteq> [] \<and> list_all is_word name"
proof -
  from assms obtain r where r: "strip_prefix (js ''function'') s = Some r"
    and sp: "takeWhile is_ws r \<noteq> []"
    and name: "name = takeWhile is_word (dropWhile is_ws r)" "name \<noteq> []"
    and rest: "rest = dropWhile is_word (dropWhile is_ws r)"
    by (auto simp only: match_function_def Let_def split: option.splits if_splits)
  have "r = takeWhile is_ws r @ name @ rest"
    unfolding name rest by simp
  with strip_prefix_Some[OF r] have "s = js ''function'' @ takeWhile is_ws r @ name @ rest"
    by simp
  with sp name show ?thesis
    by (intro exI[of _ "takeWhile is_ws r"]) (simp add: list_all_takeWhile)
qed

lemma match_assign_decomp:
  assumes "match_assign kw s = Some (name, rest)"
  shows "\<exists>sp sp'. s = kw @ sp @ name @ sp' @ [61] @ rest \<and> sp \<noteq> [] \<and> list_all is_ws sp
              \<and> name \<noteq> [] \<and> list_all is_word name \<and> list_all is_ws sp'"
proof -
  let ?r2 = "\<lambda>r. dropWhile is_word (dropWhile is_ws r)"
  from assms obtain r where r: "strip_prefix kw s = Some r"
    and sp: "takeWhile is_ws r \<noteq> []"
    and name: "name = takeWhile is_word (dropWhile is_ws r)" "name \<noteq> []"
    and rest: "dropWhile is_ws (?r2 r) = 61 # rest"
    by (auto simp only: match_assign_def Let_def split: option.splits if_splits list.splits)
  have "?r2 r = takeWhile is_ws (?r2 r) @ dropWhile is_ws (?r2 r)" by simp
  then have r2: "?r2 r = takeWhile is_ws (?r2 r) @ [61] @ rest" unfolding rest by simp
  have "r = takeWhile is_ws r @ name @ ?r2 r"
    unfolding name by simp
  with r2 have "r = takeWhile is_ws r @ name @ takeWhile is_ws (?r2 r) @ [61] @ rest"
    by simp
  with strip_prefix_Some[OF r]
  have "s = kw @ takeWhile is_ws r @ name @ takeWhile is_ws (?r2 r) @ [61] @ rest"
    by simp
  with sp name show ?thesis
    by (intro exI[of _ "takeWhile is_ws r"] exI[of _ "takeWhile is_ws (?r2 r)"])
       (simp add: list_all_takeWhile)
qed

lemma match_here_decomp:
  assumes "match_here s = Some (name, rest)"
  shows "\<exists>kw sp post. s = kw @ sp @ name @ post \<and> kw \<in> declaration_keywords
            \<and> sp \<noteq> [] \<and> list_all is_ws sp \<and> name \<noteq> [] \<and> list_all is_word name
            \<and> (kw = js ''function'' \<or> (\<exists>sp' post'. list_all is_ws sp' \<and> post = sp' @ [61] @ post'))
            \<and> (\<exists>mid. post = mid @ rest)"
proof -
  from assms consider (f) "match_function s = Some (name, rest)"
    | (a) kw where "kw \<in> declaration_keywords" "match_assign kw s = Some (name, rest)"
    by (auto simp only: match_here_def declaration_keywords_def split: option.splits)
  then show ?thesis
  proof cases
    case f
    from match_function_decomp[OF f] obtain sp where
      "s = js ''function'' @ sp @ name @ rest" "sp \<noteq> []" "list_all is_ws sp"
      "name \<noteq> []" "list_all is_word name" by blast
    moreover have "js ''function'' \<in> declaration_keywords"
      by (simp add: declaration_keywords_def)
    moreover have "\<exists>mid. rest = mid @ rest" by (rule exI[of _ "[]"]) simp
    ultimately show ?thesis
      by - (rule exI[of _ "js ''function''"], rule exI[of _ sp], rule exI[of _ rest], blast)
  next
    case a
    from match_assign_decomp[OF a(2)] obtain sp sp' where
      d: "s = kw @ sp @ name @ sp' @ [61] @ rest" "sp \<noteq> []" "list_all is_ws sp"
      "name \<noteq> []" "list_all is_word name" "list_all is_ws sp'" by blast
    have "\<exists>sp'' post'. list_all is_ws sp'' \<and> sp' @ [61] @ rest = sp'' @ [61] @ post'"
      using d(6) by blast
    moreover have "\<exists>mid. sp' @ [61] @ rest = mid @ rest"
      by (rule exI[of _ "sp' @ [61]"]) simp
    ultimately show ?thesis
      using d(1-5) a(1)
      by - (rule exI[of _ kw], rule exI[of _ sp], rule exI[of _ "sp' @ [61] @ rest"], blast)
  qed
qed

lemma match_function_complete:
  assumes "sp \<noteq> []" "list_all is_ws sp" "name \<noteq> []" "list_all is_word name"
    and "rest = [] \<or> \<not> is_word (hd rest)"
  shows "match_function (js ''function'' @ sp @ name @ rest) = Some (name, rest)"
proof -
  from assms(3,4) have "\<not> is_ws (hd (name @ rest))"
    by (cases name) (auto dest: word_not_ws)
  then have "name @ rest = [] \<or> \<not> is_ws (hd (name @ rest))" by simp
  from takeWhile_exact[OF assms(2) this]
  have 1: "takeWhile is_ws (sp @ name @ rest) = sp" "dropWhile is_ws (sp @ name @ rest) = name @ rest" .
  from takeWhile_exact[OF assms(4,5)]
  have 2: "takeWhile is_word (name @ rest) = name" "dropWhile is_word (name @ rest) = rest" .
  show ?thesis
    unfolding match_function_def strip_prefix_append
    using assms(1,3) by (simp add: 1 2 Let_def)
qed

lemma match_assign_complete:
  assumes "sp \<noteq> []" "list_all is_ws sp" "name \<noteq> []" "list_all is_word name" "list_all is_ws sp'"
  shows "match_assign kw (kw @ sp @ name @ sp' @ [61] @ rest) = Some (name, rest)"
proof -
  let ?tail = "sp' @ 61 # rest"
  from assms(3,4) have "\<not> is_ws (hd (name @ ?tail))"
    by (cases name) (auto dest: word_not_ws)
  then have "name @ ?tail = [] \<or> \<not> is_ws (hd (name @ ?tail))" by simp
  from takeWhile_exact[OF assms(2) this]
  have 1: "takeWhile is_ws (sp @ name @ ?tail) = sp" "dropWhile is_ws (sp @ name @ ?tail) = name @ ?tail" .
  have "\<not> is_word (hd ?tail)"
  proof (cases sp')
    case Nil
    then show ?thesis by (simp add: is_word_def)
  next
    case (Cons c cs)
    with assms(5) have "is_ws c" by simp
    with Cons show ?thesis using word_not_ws by auto
  qed
  then have "?tail = [] \<or> \<not> is_word (hd ?tail)" by simp
  from takeWhile_exact[OF assms(4) this]
  have 2: "takeWhile is_word (name @ ?tail) = name" "dropWhile is_word (name @ ?tail) = ?tail" .
  have "\<not> is_ws 61" by (simp add: is_ws_def)
  then have "61 # rest = [] \<or> \<not> is_ws (hd (61 # rest))" by simp
  from takeWhile_exact(2)[OF assms(5) this]
  have 3: "dropWhile is_ws ?tail = 61 # rest" .
  have "match_assign kw (kw @ sp @ name @ ?tail) = Some (name, rest)"
    unfolding match_assign_def strip_prefix_append
    using assms(1,3) by (simp add: 1 2 3 Let_def)
  then show ?thesis by simp
qed

lemma match_function_hd: "match_function s = Some m \<Longrightarrow> hd s = 102"
proof -
  assume "match_function s = Some m"
  then obtain r where "strip_prefix (js ''function'') s = Some r"
    by (auto simp only: match_function_def split: option.splits)
  from strip_prefix_hd[OF this] show ?thesis by simp
qed

lemma match_assign_hd:
  assumes "match_assign kw s = Some m" and "kw \<noteq> []"
  shows "hd s = hd kw"
proof -
  from assms(1) obtain r where "strip_prefix kw s = Some r"
    by (auto simp only: match_assign_def split: option.splits)
  from strip_prefix_hd[OF this assms(2)] show ?thesis .
qed

lemma match_here_complete:
  assumes "declaration_at s name rest"
  shows "match_here s = Some (name, rest)"
proof -
  from assms obtain sp where sp: "sp \<noteq> []" "list_all is_ws sp" "name \<noteq> []" "list_all is_word name"
    and alt: "(s = js ''function'' @ sp @ name @ rest \<and> (rest = [] \<or> \<not> is_word (hd rest)))
           \<or> (\<exists>kw sp'. kw \<in> {js ''const'', js ''let'', js ''var''} \<and> list_all is_ws sp'
                 \<and> s = kw @ sp @ name @ sp' @ [61] @ rest)"
    unfolding declaration_at_def by blast
  from alt show ?thesis
  proof
    assume "s = js ''function'' @ sp @ name @ rest \<and> (rest = [] \<or> \<not> is_word (hd rest))"
    with match_function_complete[OF sp] have "match_function s = Some (name, rest)" by blast
    then show ?thesis by (simp add: match_here_def)
  next
    assume "\<exists>kw sp'. kw \<in> {js ''const'', js ''let'', js ''var''} \<and> list_all is_ws sp'
                 \<and> s = kw @ sp @ name @ sp' @ [61] @ rest"
    then obtain kw sp' where kw: "kw \<in> {js ''const'', js ''let'', js ''var''}"
      and sp': "list_all is_ws sp'" and s: "s = kw @ sp @ name @ sp' @ [61] @ rest" by blast
    from match_assign_complete[OF sp sp'] have m: "match_assign kw s = Some (name, rest)"
      unfolding s .
    from kw have ne: "kw \<noteq> []" by auto
    have hd: "hd s = hd kw" using s ne by simp
    have nf: "match_function s = None"
    proof (rule not_Some_None)
      fix m' show "match_function s \<noteq> Some m'"
        using match_function_hd[of s m'] hd kw by auto
    qed
    have other: "match_assign kw' s = None"
      if "kw' \<in> {js ''const'', js ''let'', js ''var''}" "kw' \<noteq> kw" for kw'
    proof (rule not_Some_None)
      fix m'
      from that(1) have "kw' \<noteq> []" by auto
      from match_assign_hd[OF _ this, of s m'] hd kw that show "match_assign kw' s \<noteq> Some m'"
        by auto
    qed
    from kw consider "kw = js ''const''" | "kw = js ''let''" | "kw = js ''var''" by blast
    then show ?thesis
    proof cases
      case 1
      with m nf show ?thesis by (simp add: match_here_def)
    next
      case 2
      with other[of "js ''const''"] have "match_assign (js ''const'') s = None" by simp
      with 2 m nf show ?thesis by (simp add: match_here_def)
    next
      case 3
      with other[of "js ''const''"] other[of "js ''let''"]
      have "match_assign (js ''const'') s = None" "match_assign (js ''let'') s = None" by simp_all
      with 3 m nf show ?thesis by (simp add: match_here_def)
    qed
  qed
qed

lemma match_here_sound:
  assumes "match_here s = Some (name, rest)"
  shows "declaration_at s name rest"
proof -
  from assms consider (f) "match_function s = Some (name, rest)"
    | (a) kw where "kw \<in> {js ''const'', js ''let'', js ''var''}" "match_assign kw s = Some (name, rest)"
    by (auto simp only: match_here_def split: option.splits)
  then show ?thesis
  proof cases
    case f
    from match_function_decomp[OF f] obtain sp where
      d: "s = js ''function'' @ sp @ name @ rest" "sp \<noteq> []" "list_all is_ws sp"
      "name \<noteq> []" "list_all is_word name" by blast
    from f obtain r where "rest = dropWhile is_word r"
      by (auto simp only: match_function_def Let_def split: option.splits if_splits)
    with dropWhile_stops[of is_word r] have "rest = [] \<or> \<not> is_word (hd rest)" by simp
    with d show ?thesis unfolding declaration_at_def by blast
  next
    case a
    from match_assign_decomp[OF a(2)] obtain sp sp' where
      d: "s = kw @ sp @ name @ sp' @ [61] @ rest" "sp \<noteq> []" "list_all is_ws sp"
      "name \<noteq> []" "list_all is_word name" "list_all is_ws sp'" by blast
    with a(1) show ?thesis unfolding declaration_at_def by blast
  qed
qed

lemma match_here_iff: "match_here s = Some (name, rest) \<longleftrightarrow> declaration_at s name rest"
  using match_here_sound match_here_complete by blast

lemma match_here_None_iff: "match_here s = None \<longleftrightarrow> (\<forall>name rest. \<not> declaration_at s name rest)"
proof
  assume "match_here s = None"
  then show "\<forall>name rest. \<not> declaration_at s name rest"
    using match_here_complete by fastforce
next
  assume n: "\<forall>name rest. \<not> declaration_at s name rest"
  show "match_here s = None"
  proof (rule not_Some_None)
    fix m show "match_here s \<noteq> Some m"
      using n match_here_sound[of s "fst m" "snd m"] by auto
  qed
qed

lemma declared_in_order_prepend:
  assumes "declared_in_order post names"
  shows "declared_in_order (pre @ post) names"
  using assms
proof cases
  case no_more
  then show ?thesis by (simp add: declared_in_order.no_more)
next
  case (declared pre' kw sp name post' names')
  from declared(2) have "pre @ post = (pre @ pre') @ kw @ sp @ name @ post'" by simp
  from declared_in_order.declared[OF this declared(3-)] show ?thesis
    unfolding declared(1) .
qed

lemma scan_names_declared: "declared_in_order s (scan_names s)"
proof (induction s rule: scan_names.induct)
  case (1 s)
  show ?case
  proof (cases "match_here s")
    case None
    show ?thesis
    proof (cases s)
      case Nil
      with None show ?thesis by (simp add: declared_in_order.no_more)
    next
      case (Cons c cs)
      from "1.IH"(1)[OF None Cons] have "declared_in_order ([c] @ cs) (scan_names cs)"
        by (rule declared_in_order_prepend)
      with None Cons show ?thesis by simp
    qed
  next
    case (Some m)
    obtain name rest where m: "m = (name, rest)" by (cases m)
    from "1.IH"(2)[OF Some m[symmetric]] have ih: "declared_in_order rest (scan_names rest)" .
    from match_here_decomp[OF Some[unfolded m]] obtain kw sp post mid where
      d: "s = kw @ sp @ name @ post" "kw \<in> declaration_keywords" "sp \<noteq> []" "list_all is_ws sp"
        "name \<noteq> []" "list_all is_word name"
        "kw = js ''function'' \<or> (\<exists>sp' post'. list_all is_ws sp' \<and> post = sp' @ [61] @ post')"
      and post: "post = mid @ rest" by blast
    from ih have p: "declared_in_order post (scan_names rest)"
      unfolding post by (rule declared_in_order_prepend)
    show ?thesis
    proof (cases "name \<noteq> js ''require'' \<and> name \<noteq> js ''module''")
      case True
      from d(1) have "s = [] @ kw @ sp @ name @ post" by simp
      from declared_in_order.declared[OF this d(2-7) _ _ p] True
      have "declared_in_order s (name # scan_names rest)" by blast
      moreover from Some m True d(5) have "scan_names s = name # scan_names rest" by simp
      ultimately show ?thesis by simp
    next
      case False
      from p have "declared_in_order ((kw @ sp @ name) @ post) (scan_names rest)"
        by (rule declared_in_order_prepend)
      then have "declared_in_order s (scan_names rest)" using d(1) by simp
      moreover from Some m False have "scan_names s = scan_names rest" by auto
      ultimately show ?thesis by simp
    qed
  qed
qed

lemma scan_names_skip:
  assumes "\<forall>i < length pre. match_here (drop i (pre @ s)) = None"
  shows "scan_names (pre @ s) = scan_names s"
  using assms
proof (induction pre)
  case Nil
  show ?case by simp
next
  case (Cons c pre)
  from Cons.prems have 0: "match_here (c # pre @ s) = None" by fastforce
  have "\<forall>i < length pre. match_here (drop i (pre @ s)) = None"
  proof (intro allI impI)
    fix i assume "i < length pre"
    then have "Suc i < length (c # pre)" by simp
    with Cons.prems have "match_here (drop (Suc i) ((c # pre) @ s)) = None" by blast
    then show "match_here (drop i (pre @ s)) = None" by simp
  qed
  from Cons.IH[OF this] 0 show ?case by simp
qed

lemma scan_names_none:
  assumes "\<forall>i \<le> length s. match_here (drop i s) = None"
  shows "scan_names s = []"
  using assms
proof (induction s)
  case Nil
  then show ?case by simp
next
  case (Cons c s)
  from Cons.prems have 0: "match_here (c # s) = None" by fastforce
  have "\<forall>i \<le> length s. match_here (drop i s) = None"
  proof (intro allI impI)
    fix i assume "i \<le> length s"
    then have "Suc i \<le> length (c # s)" by simp
    with Cons.prems have "match_here (drop (Suc i) (c # s)) = None" by blast
    then show "match_here (drop i s) = None" by simp
  qed
  from Cons.IH[OF this] 0 show ?case by simp
qed

subsection \<open>The examples\<close>

lemma example_code_trim: "trim example_code \<noteq> []"
  by (simp add: example_code_def trim_def is_ws_def)

lemma example_run:
  "script_run (example_host rm r) example_function (js ''adder'') (Object []) [] = r"
  by (simp add: script_run_def example_host_def)

lemma example_adder:
  "map_of (h_functions example_handler) (js ''adder'') = Some example_function"
  by (simp add: example_handler_def)

lemma last_line_closing_brace: "last_line closing_brace_code = js ''}''"
  by (simp add: last_line_def closing_brace_code_def trim_def is_ws_def)

lemma final_line_closing_brace: "final_nonblank_line closing_brace_code = Some (js ''}'')"
  by (simp add: final_nonblank_line_def closing_brace_code_def trim_def is_ws_def)

lemmas scan_eval = extractFunctionNames_def match_here_def match_function_def match_assign_def
  strip_prefix_def is_ws_def is_word_def Let_def

section \<open>The choice of the wrapper\<close>

text \<open>
  What the transformer does with the final non-blank line of the trimmed source: a line
  that, trimmed, holds no parenthesis, brace or semicolon gives the bare-name wrapper
  around the verbatim source, calling the line as a function; a line with \<^verbatim>\<open>(\<close>, \<^verbatim>\<open>{\<close> or
  \<^verbatim>\<open>;\<close>, and a blank source, give the general wrapper.
\<close>

lemma bare_name_convention:
  assumes "final_nonblank_line code = Some l" and "is_bare_name (trim l)"
  shows "wrapFunctionForNodeJS code im = bare_name_wrapper code (trim l)"
proof -
  from final_nonblank_line_Some[OF assms(1)] have "last_line code = trim l"
    by (simp add: last_line_def)
  with assms(2) show ?thesis
    by (simp add: wrapFunctionForNodeJS_def is_bare_name_def includes_str_single)
qed

lemma general_convention:
  assumes "final_nonblank_line code = Some l" and "40 \<in> set l \<or> 123 \<in> set l \<or> 59 \<in> set l"
  shows "wrapFunctionForNodeJS code im = general_wrapper code"
proof -
  from final_nonblank_line_Some[OF assms(1)] have ll: "last_line code = trim l"
    by (simp add: last_line_def)
  have "\<not> is_ws 40" "\<not> is_ws 123" "\<not> is_ws 59" by (simp_all add: is_ws_def)
  with assms(2) have "40 \<in> set (trim l) \<or> 123 \<in> set (trim l) \<or> 59 \<in> set (trim l)"
    by (auto intro: in_set_trim)
  then show ?thesis
    by (auto simp: wrapFunctionForNodeJS_def ll includes_str_single)
qed

lemma blank_source_general:
  assumes "final_nonblank_line code = None"
  shows "wrapFunctionForNodeJS code im = general_wrapper code"
proof -
  have "trim [] = []" by (simp add: trim_def)
  with final_nonblank_line_None[OF assms] have "last_line code = []"
    by (simp add: last_line_def)
  then show ?thesis by (simp add: wrapFunctionForNodeJS_def)
qed

text \<open>
  Claim C1 says that a final line with a parenthesis, a brace or a semicolon gives the
  general wrapper. The transformer tests the opening \<^verbatim>\<open>(\<close> and \<^verbatim>\<open>{\<close> only: a function
  declaration that ends with its closing brace on a line of its own gets the bare-name
  wrapper, with \<^verbatim>\<open>}\<close> as the name of the function to call.
\<close>

theorem closing_brace_line_gets_bare_wrapper:
  "final_nonblank_line closing_brace_code = Some (js ''}'')
   \<and> 125 \<in> set (js ''}'')
   \<and> wrapFunctionForNodeJS closing_brace_code im = bare_name_wrapper closing_brace_code (js ''}'')
   \<and> wrapFunctionForNodeJS closing_brace_code im \<noteq> general_wrapper closing_brace_code
   \<and> includes_str (wrapFunctionForNodeJS closing_brace_code im) (js ''const result = }(request);'')"
proof -
  have w: "wrapFunctionForNodeJS closing_brace_code im = bare_name_wrapper closing_brace_code (js ''}'')"
    by (simp add: wrapFunctionForNodeJS_def last_line_closing_brace)
  have "take 70 (bare_name_wrapper closing_brace_code (js ''}'')) \<noteq> take 70 (general_wrapper closing_brace_code)"
    by (simp add: bare_name_wrapper_def general_wrapper_def)
  then have d: "bare_name_wrapper closing_brace_code (js ''}'') \<noteq> general_wrapper closing_brace_code"
    by auto
  have i: "includes_str (bare_name_wrapper closing_brace_code (js ''}'')) (js ''const result = }(request);'')"
    by (simp add: bare_name_wrapper_def closing_brace_code_def)
  from w d i show ?thesis by (simp add: final_line_closing_brace)
qed

section \<open>The order of the result shapes\<close>

text \<open>
  Claim C2, as the code has it. A run that settles with a value yields a successful
  result whose data is: the \<^verbatim>\<open>{data, status, headers}\<close> made from the value when it is an
  object with \<^verbatim>\<open>body\<close> and \<^verbatim>\<open>status\<close> defined (shape A); otherwise what the builder
  holds when its data is defined (shape B); otherwise the value itself (shape C). In
  particular, when the value is not of shape A and the last call that wrote the builder's
  data is \<^verbatim>\<open>json(v)\<close> with \<open>v\<close> defined, the data of the outcome is \<open>v\<close>.
\<close>

theorem normalizer_precedence:
  fixes rt f n payload headers
  defines "calls \<equiv> res_calls (script_run rt f n payload headers)"
  defines "b \<equiv> builder_after rt calls"
  assumes "map_of (h_functions h) n = Some f"
    and "settles_with (outcome (script_run rt f n payload headers)) ret"
  shows "\<exists>r d. executeFunction rt h n payload headers = Some r \<and> er_success r \<and> er_data r = Some d
     \<and> d = (if shape_A ret
            then Object [(js ''data'', get_prop ret (js ''body'')),
                         (js ''status'', get_prop ret (js ''status'')),
                         (js ''headers'', if truthy (get_prop ret (js ''headers''))
                                          then get_prop ret (js ''headers'') else Object [])]
            else if responseData b \<noteq> Undefined
            then Object [(js ''data'', responseData b), (js ''status'', statusCode b),
                         (js ''headers'', Object (responseHeaders b))]
            else ret)
     \<and> (\<forall>pre v post.
           \<not> shape_A ret \<and> calls = pre @ Json v # post \<and> \<not> list_ex is_write post \<and> v \<noteq> Undefined
           \<longrightarrow> get_prop d (js ''data'') = v)"
proof -
  let ?d = "extractResponseData ret b"
  note e = executeFunction_settled[OF assms(3,4), folded calls_def b_def]
  have last: "get_prop ?d (js ''data'') = v"
    if "\<not> shape_A ret" "calls = pre @ Json v # post" "\<not> list_ex is_write post" "v \<noteq> Undefined"
    for pre v post
  proof -
    have rd: "responseData b = v"
      unfolding b_def builder_after_def that(2) by (rule responseData_last_json[OF that(3)])
    with that(1,4) have d: "?d = Object [(js ''data'', v), (js ''status'', statusCode b),
        (js ''headers'', Object (responseHeaders b))]"
      by (simp add: extractResponseData_shapes)
    show ?thesis unfolding d by simp
  qed
  have shapes: "?d = (if shape_A ret
            then Object [(js ''data'', get_prop ret (js ''body'')),
                         (js ''status'', get_prop ret (js ''status'')),
                         (js ''headers'', if truthy (get_prop ret (js ''headers''))
                                          then get_prop ret (js ''headers'') else Object [])]
            else if responseData b \<noteq> Undefined
            then Object [(js ''data'', responseData b), (js ''status'', statusCode b),
                         (js ''headers'', Object (responseHeaders b))]
            else ret)"
    by (rule extractResponseData_shapes)
  from e have "executeFunction rt h n payload headers =
      Some (the (executeFunction rt h n payload headers))
    \<and> er_success (the (executeFunction rt h n payload headers))
    \<and> er_data (the (executeFunction rt h n payload headers)) = Some ?d"
    by simp
  with shapes last show ?thesis by blast
qed

theorem normalizer_precedence_witness:
  "\<exists>r d. executeFunction (example_host None json_and_plain_return) example_handler
            (js ''adder'') (Object []) [] = Some r
      \<and> er_data r = Some d \<and> get_prop d (js ''data'') = Object [(js ''ok'', Boolean True)]"
proof -
  let ?rt = "example_host None json_and_plain_return"
  let ?ret = "Object [(js ''x'', Number (Finite 1))]"
  let ?v = "Object [(js ''ok'', Boolean True)]"
  have s: "settles_with (outcome (script_run ?rt example_function (js ''adder'') (Object []) [])) ?ret"
    unfolding example_run by (simp add: json_and_plain_return_def)
  have nA: "\<not> shape_A ?ret" by (simp add: shape_A_def)
  have calls: "res_calls (script_run ?rt example_function (js ''adder'') (Object []) []) = [] @ Json ?v # []"
    unfolding example_run by (simp add: json_and_plain_return_def)
  have nw: "\<not> list_ex is_write []" by simp
  have def: "?v \<noteq> Undefined" by simp
  from normalizer_precedence[OF example_adder s] obtain r d where
    r: "executeFunction ?rt example_handler (js ''adder'') (Object []) [] = Some r" "er_data r = Some d"
    and last: "\<forall>pre v post.
           \<not> shape_A ?ret
           \<and> res_calls (script_run ?rt example_function (js ''adder'') (Object []) []) = pre @ Json v # post
           \<and> \<not> list_ex is_write post \<and> v \<noteq> Undefined
           \<longrightarrow> get_prop d (js ''data'') = v"
    by blast
  from last nA calls nw def have "get_prop d (js ''data'') = ?v" by blast
  with r show ?thesis by blast
qed

text \<open>
  The claim as written fails for a function that calls \<^verbatim>\<open>json\<close> and returns a plain object:
  after \<^verbatim>\<open>res.json(undefined)\<close> the outcome is the returned object \<^verbatim>\<open>{data: 5}\<close>, and
  after \<^verbatim>\<open>res.json(1); res.text('hi')\<close> the data of the outcome is \<^verbatim>\<open>'hi'\<close>.
\<close>

theorem normalizer_json_counterexample:
  "executeFunction (example_host None json_undefined_run) example_handler (js ''adder'') (Object []) [] =
     Some \<lparr> er_success = True, er_functionName = js ''adder'',
            er_data = Some (Object [(js ''data'', Number (Finite 5))]),
            er_error = None, er_statusCode = Some 200, er_executionTime = Some 1,
            er_runtime = Some (js ''nodejs''), er_timestamp = Some 2,
            er_availableFunctions = None,
            er_headers = Some [(js ''content-type'', String (js ''application/json''))] \<rparr>
   \<and> executeFunction (example_host None json_then_text_run) example_handler (js ''adder'') (Object []) [] =
     Some \<lparr> er_success = True, er_functionName = js ''adder'',
            er_data = Some (Object [(js ''data'', String (js ''hi'')),
                                    (js ''status'', Number (Finite 200)),
                                    (js ''headers'', Object [(js ''content-type'', String (js ''text/plain''))])]),
            er_error = None, er_statusCode = Some 200, er_executionTime = Some 1,
            er_runtime = Some (js ''nodejs''), er_timestamp = Some 2,
            er_availableFunctions = None,
            er_headers = Some [(js ''content-type'', String (js ''text/plain''))] \<rparr>"
proof -
  have ck: "clock (example_host None r) = int" for r
    by (simp add: example_host_def)
  have lw: "toLowerCase (example_host None r) = (\<lambda>s. s)" for r
    by (simp add: example_host_def)
  have 1: "executeFunction (example_host None json_undefined_run) example_handler (js ''adder'') (Object []) [] =
     Some \<lparr> er_success = True, er_functionName = js ''adder'',
            er_data = Some (Object [(js ''data'', Number (Finite 5))]),
            er_error = None, er_statusCode = Some 200, er_executionTime = Some 1,
            er_runtime = Some (js ''nodejs''), er_timestamp = Some 2,
            er_availableFunctions = None,
            er_headers = Some [(js ''content-type'', String (js ''application/json''))] \<rparr>"
    unfolding executeFunction_found[OF example_adder] example_run ck builder_after_def lw
    by (simp add: json_undefined_run_def createMockResponse_def extractResponseData_def
          getData_def getStatusCode_def getHeaders_def)
  have 2: "executeFunction (example_host None json_then_text_run) example_handler (js ''adder'') (Object []) [] =
     Some \<lparr> er_success = True, er_functionName = js ''adder'',
            er_data = Some (Object [(js ''data'', String (js ''hi'')),
                                    (js ''status'', Number (Finite 200)),
                                    (js ''headers'', Object [(js ''content-type'', String (js ''text/plain''))])]),
            er_error = None, er_statusCode = Some 200, er_executionTime = Some 1,
            er_runtime = Some (js ''nodejs''), er_timestamp = Some 2,
            er_availableFunctions = None,
            er_headers = Some [(js ''content-type'', String (js ''text/plain''))] \<rparr>"
    unfolding executeFunction_found[OF example_adder] example_run ck builder_after_def lw
    by (simp add: json_then_text_run_def createMockResponse_def extractResponseData_def
          getData_def getStatusCode_def getHeaders_def)
  from 1 2 show ?thesis by (rule conjI)
qed

section \<open>The restricted dependency loader\<close>




section \<open>A run that never settles\<close>


section \<open>Validation at deployment\<close>

text \<open>
  Claim C5, as the code has it. \<^verbatim>\<open>deployFunction\<close> fails with a non-empty reason for
  every name that does not match \<^verbatim>\<open>^[a-z0-9-]{1,50}$\<close> and for every source that is empty
  after trimming (so also for one of white space only) or longer than 100000 code units.
  With a matching name and a source that is not blank and within the limit it succeeds
  and stores the source under the name, when the scratch directory is created and the
  wrapped source compiles.
\<close>

theorem deploy_validation:
  "(\<not> matches_name_pattern n \<or> trim code = [] \<or> length code > 100000 \<longrightarrow>
      \<not> dr_success (fst (deployFunction rt h n code im))
      \<and> (\<exists>reason. dr_error (fst (deployFunction rt h n code im)) = Some reason \<and> reason \<noteq> []))
   \<and> (matches_name_pattern n \<and> trim code \<noteq> [] \<and> length code \<le> 100000
       \<and> fs_mkdir rt (path_join rt (tempDir h) n) = None
       \<and> new_Script rt (wrapFunctionForNodeJS code im) (n @ js ''.js'') = None \<longrightarrow>
      dr_success (fst (deployFunction rt h n code im))
      \<and> (\<exists>f. map_of (h_functions (snd (deployFunction rt h n code im))) n = Some f
             \<and> fn_originalCode f = code))"
proof (intro conjI impI)
  assume bad: "\<not> matches_name_pattern n \<or> trim code = [] \<or> length code > 100000"
  then show "\<not> dr_success (fst (deployFunction rt h n code im))"
    unfolding deploy_success_iff isValidFunctionName_iff by auto
  from bad have "\<not> isValidFunctionName n \<or> trim code = [] \<or> length code > 100000"
    by (simp add: isValidFunctionName_iff)
  from deploy_failure_reason[OF this]
  show "\<exists>reason. dr_error (fst (deployFunction rt h n code im)) = Some reason \<and> reason \<noteq> []"
    by (auto split: if_splits)
next
  assume ok: "matches_name_pattern n \<and> trim code \<noteq> [] \<and> length code \<le> 100000
       \<and> fs_mkdir rt (path_join rt (tempDir h) n) = None
       \<and> new_Script rt (wrapFunctionForNodeJS code im) (n @ js ''.js'') = None"
  then show s: "dr_success (fst (deployFunction rt h n code im))"
    unfolding deploy_success_iff isValidFunctionName_iff by blast
  from deploy_success_entry[OF s]
  show "\<exists>f. map_of (h_functions (snd (deployFunction rt h n code im))) n = Some f
             \<and> fn_originalCode f = code"
    by blast
qed

theorem deploy_validation_witness:
  "matches_name_pattern (js ''valid-name-1'') \<and> trim example_code \<noteq> [] \<and> length example_code \<le> 100000
   \<and> dr_success (fst (deployFunction (example_host None status_then_json) example_handler
         (js ''valid-name-1'') example_code []))
   \<and> \<not> matches_name_pattern (js ''Has_Upper'')
   \<and> \<not> dr_success (fst (deployFunction (example_host None status_then_json) example_handler
         (js ''Has_Upper'') example_code []))"
proof -
  let ?rt = "example_host None status_then_json"
  have n: "matches_name_pattern (js ''valid-name-1'')"
    by (simp add: matches_name_pattern_def)
  have l: "length example_code \<le> 100000" by (simp add: example_code_def)
  have m: "fs_mkdir ?rt (path_join ?rt (tempDir example_handler) (js ''valid-name-1'')) = None"
    by (simp add: example_host_def)
  have s: "new_Script ?rt (wrapFunctionForNodeJS example_code ([] :: (jsstring \<times> jsval) list))
      (js ''valid-name-1'' @ js ''.js'') = None"
    by (simp add: example_host_def)
  have b: "\<not> matches_name_pattern (js ''Has_Upper'')"
    by (simp add: matches_name_pattern_def)
  from deploy_validation[of "js ''valid-name-1''" example_code ?rt example_handler "[]"]
    n example_code_trim l m s
  have "dr_success (fst (deployFunction ?rt example_handler (js ''valid-name-1'') example_code []))"
    by blast
  moreover from deploy_validation[of "js ''Has_Upper''" example_code ?rt example_handler "[]"] b
  have "\<not> dr_success (fst (deployFunction ?rt example_handler (js ''Has_Upper'') example_code []))"
    by blast
  ultimately show ?thesis using n example_code_trim l b by blast
qed

text \<open>
  The claim as written fails: a source of one space is not empty and is within the limit,
  the name matches, and the deployment is refused.
\<close>

theorem deploy_blank_source_counterexample:
  "matches_name_pattern (js ''valid-name-1'') \<and> js '' '' \<noteq> [] \<and> length (js '' '') \<le> 100000
   \<and> \<not> dr_success (fst (deployFunction (example_host None status_then_json) example_handler
          (js ''valid-name-1'') (js '' '') []))
   \<and> dr_error (fst (deployFunction (example_host None status_then_json) example_handler
          (js ''valid-name-1'') (js '' '') [])) = Some (js ''Function code cannot be empty'')"
proof -
  have n: "isValidFunctionName (js ''valid-name-1'')"
    by (simp add: isValidFunctionName_def is_name_char_def)
  have t: "trim (js '' '') = []"
    by (simp add: trim_def is_ws_def)
  from n t show ?thesis
    by (simp add: isValidFunctionName_iff[symmetric] deployFunction_def validateFunctionCode_def deploy_failure_def)
qed

section \<open>Executing a name that is not deployed\<close>

text \<open>
  Claim C6. For a name absent from the registry, \<^verbatim>\<open>executeFunction\<close> returns a failure
  without running any code: the result is the same whatever the virtual machine would do,
  it carries no data, its error message contains the name, and its list of available
  functions holds exactly the keys of the registry.
\<close>

theorem execute_absent_name_fails:
  assumes "functionName \<notin> fst ` set (h_functions h)"
  shows "\<exists>r. (\<forall>vm. executeFunction (rt\<lparr>runInContext := vm\<rparr>) h functionName payload headers = Some r)
           \<and> \<not> er_success r \<and> er_data r = None
           \<and> (\<exists>pre post. er_error r = Some (pre @ functionName @ post))
           \<and> (\<exists>ks. er_availableFunctions r = Some ks \<and> set ks = fst ` set (h_functions h))"
proof -
  from assms have none: "map_of (h_functions h) functionName = None"
    by (rule map_of_absent)
  let ?r = "\<lparr> er_success = False, er_functionName = functionName, er_data = None,
                 er_error = Some (js ''Function '' @ [39] @ functionName @ [39] @
                                  js '' not found. Deploy it first using deployFunction().''),
                 er_statusCode = None, er_executionTime = None,
                 er_runtime = Some (js ''nodejs''), er_timestamp = Some (clock rt 0),
                 er_availableFunctions = Some (map fst (h_functions h)), er_headers = None \<rparr>"
  have "\<forall>vm. executeFunction (rt\<lparr>runInContext := vm\<rparr>) h functionName payload headers = Some ?r"
    by (simp add: executeFunction_def none)
  moreover have "\<exists>pre post. er_error ?r = Some (pre @ functionName @ post)"
    by (intro exI[of _ "js ''Function '' @ [39]"] exI[of _ "[39] @ js '' not found. Deploy it first using deployFunction().''"]) simp
  ultimately show ?thesis
    by (intro exI[of _ ?r]) simp
qed

theorem execute_absent_name_fails_witness:
  "js ''never-deployed'' \<notin> fst ` set (h_functions example_handler)
   \<and> (\<exists>r. executeFunction (example_host None status_then_json) example_handler
              (js ''never-deployed'') (Object []) [] = Some r
          \<and> \<not> er_success r \<and> er_availableFunctions r = Some [js ''adder''])"
proof -
  let ?rt = "example_host None status_then_json"
  have a: "js ''never-deployed'' \<notin> fst ` set (h_functions example_handler)"
    by (simp add: example_handler_def)
  from execute_absent_name_fails[OF a, of ?rt "Object []" "[]"]
  obtain r where r: "\<forall>vm. executeFunction (?rt\<lparr>runInContext := vm\<rparr>) example_handler
        (js ''never-deployed'') (Object []) [] = Some r"
    and s: "\<not> er_success r" by blast
  from r have "executeFunction (?rt\<lparr>runInContext := runInContext ?rt\<rparr>) example_handler
        (js ''never-deployed'') (Object []) [] = Some r" by blast
  then have e: "executeFunction ?rt example_handler (js ''never-deployed'') (Object []) [] = Some r"
    by simp
  then have "er_availableFunctions r = Some [js ''adder'']"
    by (auto simp: executeFunction_def example_handler_def)
  with a e s show ?thesis by blast
qed

section \<open>Removing a function\<close>

text \<open>
  Claim C7. \<^verbatim>\<open>removeFunction\<close> returns whether an entry of that name existed. Whatever
  \<^verbatim>\<open>fs.rm\<close> does, the entry is deleted from the registry, an absent name leaves the
  handler unchanged, the other entries stay, a failure of \<^verbatim>\<open>fs.rm\<close> adds one warning to
  the console and nothing else, and executing the name afterwards gives the not-found
  failure.
\<close>

theorem remove_function_result:
  "fst (removeFunction rt h n) = (n \<in> fst ` set (h_functions h))
   \<and> h_functions (snd (removeFunction rt h n)) = assoc_delete n (h_functions h)
   \<and> (n \<notin> fst ` set (h_functions h) \<longrightarrow> snd (removeFunction rt h n) = h)
   \<and> (\<forall>k. k \<noteq> n \<longrightarrow> map_of (h_functions (snd (removeFunction rt h n))) k = map_of (h_functions h) k)
   \<and> console_warn (snd (removeFunction rt h n)) = console_warn h @
        (case map_of (h_functions h) n of
           None \<Rightarrow> []
         | Some f \<Rightarrow>
             (case fs_rm rt (fn_directory f) of
                None \<Rightarrow> []
              | Some e \<Rightarrow> [(js ''Could not remove function files for '' @ [39] @ n @ [39] @ js '':'',
                            Some e)]))
   \<and> executeFunction rt' (snd (removeFunction rt h n)) n payload headers =
       Some \<lparr> er_success = False, er_functionName = n, er_data = None,
              er_error = Some (js ''Function '' @ [39] @ n @ [39] @
                               js '' not found. Deploy it first using deployFunction().''),
              er_statusCode = None, er_executionTime = None,
              er_runtime = Some (js ''nodejs''), er_timestamp = Some (clock rt' 0),
              er_availableFunctions = Some (map fst (assoc_delete n (h_functions h))),
              er_headers = None \<rparr>"
proof -
  have del: "h_functions (snd (removeFunction rt h n)) = assoc_delete n (h_functions h)"
  proof (cases "map_of (h_functions h) n")
    case None
    then have "n \<notin> fst ` set (h_functions h)" by (simp add: map_of_eq_None_iff)
    then have "assoc_delete n (h_functions h) = h_functions h"
      by (auto simp: assoc_delete_def filter_id_conv)
    with None show ?thesis by (simp add: removeFunction_def)
  next
    case (Some f)
    then show ?thesis by (simp add: removeFunction_def split: option.splits)
  qed
  have ret: "fst (removeFunction rt h n) = (n \<in> fst ` set (h_functions h))"
  proof (cases "map_of (h_functions h) n")
    case None
    then have "n \<notin> fst ` set (h_functions h)" by (simp add: map_of_eq_None_iff)
    with None show ?thesis by (simp add: removeFunction_def)
  next
    case (Some f)
    then have "n \<in> fst ` set (h_functions h)" by (metis map_of_eq_None_iff option.distinct(1))
    with Some show ?thesis by (simp add: removeFunction_def split: option.splits)
  qed
  have same: "n \<notin> fst ` set (h_functions h) \<longrightarrow> snd (removeFunction rt h n) = h"
    by (simp add: removeFunction_def map_of_absent)
  have others: "\<forall>k. k \<noteq> n \<longrightarrow> map_of (h_functions (snd (removeFunction rt h n))) k = map_of (h_functions h) k"
    unfolding del by (simp add: map_of_assoc_delete_other)
  have "n \<notin> fst ` set (assoc_delete n (h_functions h))"
    by (simp add: keys_assoc_delete)
  then have "map_of (h_functions (snd (removeFunction rt h n))) n = None"
    unfolding del by (rule map_of_absent)
  then have exec: "executeFunction rt' (snd (removeFunction rt h n)) n payload headers =
       Some \<lparr> er_success = False, er_functionName = n, er_data = None,
              er_error = Some (js ''Function '' @ [39] @ n @ [39] @
                               js '' not found. Deploy it first using deployFunction().''),
              er_statusCode = None, er_executionTime = None,
              er_runtime = Some (js ''nodejs''), er_timestamp = Some (clock rt' 0),
              er_availableFunctions = Some (map fst (assoc_delete n (h_functions h))),
              er_headers = None \<rparr>"
    by (simp add: executeFunction_def del)
  have log: "console_warn (snd (removeFunction rt h n)) = console_warn h @
        (case map_of (h_functions h) n of
           None \<Rightarrow> []
         | Some f \<Rightarrow>
             (case fs_rm rt (fn_directory f) of
                None \<Rightarrow> []
              | Some e \<Rightarrow> [(js ''Could not remove function files for '' @ [39] @ n @ [39] @ js '':'',
                            Some e)]))"
    by (simp add: removeFunction_def split: option.splits)
  from ret del same others log exec show ?thesis by blast
qed

theorem remove_function_result_witness:
  "removeFunction (example_host (Some (JsError (js ''EACCES''))) status_then_json) example_handler (js ''adder'') =
     (True, \<lparr> h_functions = [], tempDir = js ''/tmp/mcp-nodejs-functions'',
              console_warn = [(js ''Could not remove function files for '' @ [39] @ js ''adder'' @ [39] @ js '':'',
                               Some (JsError (js ''EACCES'')))] \<rparr>)
   \<and> (\<exists>r. executeFunction (example_host None status_then_json)
            (snd (removeFunction (example_host (Some (JsError (js ''EACCES''))) status_then_json) example_handler (js ''adder'')))
            (js ''adder'') (Object []) [] = Some r \<and> \<not> er_success r \<and> er_availableFunctions r = Some [])
   \<and> fst (removeFunction (example_host None status_then_json) example_handler (js ''ghost'')) = False"
proof -
  let ?rt = "example_host (Some (JsError (js ''EACCES''))) status_then_json"
  note t = remove_function_result[of ?rt example_handler "js ''adder''" "example_host None status_then_json" "Object []" "[]"]
  have keys: "js ''adder'' \<in> fst ` set (h_functions example_handler)"
    by (simp add: example_handler_def)
  have del: "assoc_delete (js ''adder'') (h_functions example_handler) = []"
    by (simp add: example_handler_def assoc_delete_def)
  from t keys have r1: "fst (removeFunction ?rt example_handler (js ''adder'')) = True" by blast
  from t del have r2: "h_functions (snd (removeFunction ?rt example_handler (js ''adder''))) = []" by simp
  have r3: "removeFunction ?rt example_handler (js ''adder'') =
     (True, \<lparr> h_functions = [], tempDir = js ''/tmp/mcp-nodejs-functions'',
              console_warn = [(js ''Could not remove function files for '' @ [39] @ js ''adder'' @ [39] @ js '':'',
                               Some (JsError (js ''EACCES'')))] \<rparr>)"
    by (simp add: removeFunction_def example_handler_def example_host_def assoc_delete_def)
  from t del have "\<exists>r. executeFunction (example_host None status_then_json)
            (snd (removeFunction ?rt example_handler (js ''adder'')))
            (js ''adder'') (Object []) [] = Some r \<and> \<not> er_success r \<and> er_availableFunctions r = Some []"
    by simp
  moreover have "fst (removeFunction (example_host None status_then_json) example_handler (js ''ghost'')) = False"
    using remove_function_result[of "example_host None status_then_json" example_handler "js ''ghost''" "example_host None status_then_json" "Object []" "[]"]
    by (simp add: example_handler_def)
  ultimately show ?thesis using r3 by blast
qed

section \<open>A rejected deployment leaves the registry as it was\<close>

text \<open>
  Claim C8. When the name or the source is rejected by validation, \<^verbatim>\<open>deployFunction\<close>
  returns a failure with a non-empty reason and the handler, its registry included, is
  unchanged: no entry is created or overwritten.
\<close>

theorem deploy_rejected_leaves_registry:
  assumes "\<not> isValidFunctionName n \<or> (\<exists>e. validateFunctionCode code = Inl e)"
  shows "snd (deployFunction rt h n code im) = h
         \<and> \<not> dr_success (fst (deployFunction rt h n code im))
         \<and> (\<exists>reason. dr_error (fst (deployFunction rt h n code im)) = Some reason \<and> reason \<noteq> [])"
proof (cases "isValidFunctionName n")
  case False
  then show ?thesis
    by (simp add: deployFunction_def deploy_failure_def)
next
  case True
  with assms obtain e where e: "validateFunctionCode code = Inl e" by blast
  from e have "error_text e \<noteq> []" by (rule error_text_nonempty_validation)
  with True e show ?thesis
    by (simp add: deployFunction_def deploy_failure_def)
qed

theorem deploy_rejected_leaves_registry_witness:
  "\<not> isValidFunctionName (js ''Has_Upper'')
   \<and> snd (deployFunction (example_host None status_then_json) example_handler (js ''Has_Upper'') example_code []) = example_handler
   \<and> dr_error (fst (deployFunction (example_host None status_then_json) example_handler (js ''Has_Upper'') example_code []))
       = Some (js ''Invalid function name. Use only letters, numbers, and hyphens.'')"
proof -
  have bad: "\<not> isValidFunctionName (js ''Has_Upper'')"
    by (simp add: isValidFunctionName_def is_name_char_def)
  then have "\<not> isValidFunctionName (js ''Has_Upper'') \<or> (\<exists>e. validateFunctionCode example_code = Inl e)"
    by simp
  from deploy_rejected_leaves_registry[OF this, of "example_host None status_then_json" example_handler "[]"]
  have "snd (deployFunction (example_host None status_then_json) example_handler (js ''Has_Upper'') example_code []) = example_handler"
    by simp
  moreover have "dr_error (fst (deployFunction (example_host None status_then_json) example_handler (js ''Has_Upper'') example_code []))
       = Some (js ''Invalid function name. Use only letters, numbers, and hyphens.'')"
    using bad by (simp add: deployFunction_def deploy_failure_def)
  ultimately show ?thesis using bad by simp
qed

section \<open>The names the scan returns\<close>

text \<open>
  Claim C9, as the code has it. The names \<^verbatim>\<open>extractFunctionNames\<close> returns are declared in
  the text one after the other, in the order returned, and none is \<^verbatim>\<open>require\<close> or
  \<^verbatim>\<open>module\<close>. They are exactly the names of the declarations found from left to right:
  a text with no declaration at any index gives no name; otherwise the leftmost
  declaration gives its name, unless reserved, followed by the names of the text after
  that declaration. The scan does not look at the nesting depth.
\<close>

theorem extractFunctionNames_leftmost:
  "declared_in_order code (extractFunctionNames code)
   \<and> ((\<forall>i \<le> length code. \<forall>name rest. \<not> declaration_at (drop i code) name rest)
        \<longrightarrow> extractFunctionNames code = [])
   \<and> (\<forall>pre s name rest.
         code = pre @ s \<and> declaration_at s name rest
         \<and> (\<forall>i < length pre. \<forall>name' rest'. \<not> declaration_at (drop i code) name' rest')
        \<longrightarrow> extractFunctionNames code =
              (if name = js ''require'' \<or> name = js ''module'' then [] else [name])
              @ extractFunctionNames rest)"
proof (intro conjI allI impI)
  show "declared_in_order code (extractFunctionNames code)"
    unfolding extractFunctionNames_def by (rule scan_names_declared)
next
  assume "\<forall>i \<le> length code. \<forall>name rest. \<not> declaration_at (drop i code) name rest"
  then have "\<forall>i \<le> length code. match_here (drop i code) = None"
    by (simp add: match_here_None_iff)
  then show "extractFunctionNames code = []"
    unfolding extractFunctionNames_def by (rule scan_names_none)
next
  fix pre s name rest
  assume a: "code = pre @ s \<and> declaration_at s name rest
         \<and> (\<forall>i < length pre. \<forall>name' rest'. \<not> declaration_at (drop i code) name' rest')"
  then have code: "code = pre @ s" and m: "match_here s = Some (name, rest)"
    by (simp_all add: match_here_complete)
  from a have "\<forall>i < length pre. match_here (drop i code) = None"
    by (auto simp only: match_here_None_iff)
  then have "\<forall>i < length pre. match_here (drop i (pre @ s)) = None"
    by (simp only: code)
  from scan_names_skip[OF this] have "scan_names code = scan_names s" by (simp only: code)
  moreover from a have "name \<noteq> []" by (auto simp: declaration_at_def)
  with m have "scan_names s = (if name = js ''require'' \<or> name = js ''module'' then [] else [name]) @ scan_names rest"
    by (subst scan_names.simps) simp
  ultimately show "extractFunctionNames code =
              (if name = js ''require'' \<or> name = js ''module'' then [] else [name])
              @ extractFunctionNames rest"
    unfolding extractFunctionNames_def by simp
qed

theorem extractFunctionNames_leftmost_witness:
  "extractFunctionNames nested_code =
     [js ''outer''] @ extractFunctionNames (js ''() {'' @ [10] @ js ''  const inner = 1;'' @ [10] @ js ''}'')
   \<and> extractFunctionNames (js ''x'') = []
   \<and> declared_in_order example_code [js ''add'']"
proof -
  let ?rest = "js ''() {'' @ [10] @ js ''  const inner = 1;'' @ [10] @ js ''}''"
  note t = extractFunctionNames_leftmost
  have "match_here nested_code = Some (js ''outer'', ?rest)"
    by (simp add: nested_code_def match_here_def match_function_def strip_prefix_def
          is_ws_def is_word_def Let_def)
  then have d: "declaration_at nested_code (js ''outer'') ?rest"
    by (rule match_here_sound)
  have c: "nested_code = [] @ nested_code" by simp
  have n: "\<forall>i < length ([] :: jsstring). \<forall>name' rest'. \<not> declaration_at (drop i nested_code) name' rest'"
    by simp
  from t[of nested_code] c d n
  have "extractFunctionNames nested_code =
      (if js ''outer'' = js ''require'' \<or> js ''outer'' = js ''module'' then [] else [js ''outer''])
      @ extractFunctionNames ?rest"
    by blast
  then have 1: "extractFunctionNames nested_code = [js ''outer''] @ extractFunctionNames ?rest"
    by simp
  have "\<forall>i \<le> length (js ''x''). \<forall>name rest. \<not> declaration_at (drop i (js ''x'')) name rest"
  proof (intro allI impI)
    fix i name rest
    assume "i \<le> length (js ''x'')"
    then have "i = 0 \<or> i = 1" by auto
    then have "match_here (drop i (js ''x'')) = None"
      by (auto simp: match_here_def match_function_def match_assign_def strip_prefix_def)
    then show "\<not> declaration_at (drop i (js ''x'')) name rest"
      by (simp add: match_here_None_iff)
  qed
  with t[of "js ''x''"] have 2: "extractFunctionNames (js ''x'') = []" by blast
  have e: "extractFunctionNames example_code = [js ''add'']"
    by (simp add: example_code_def scan_eval)
  from t[of example_code] have 3: "declared_in_order example_code [js ''add'']"
    unfolding e by blast
  from 1 2 3 show ?thesis by blast
qed

text \<open>
  The claim as written fails: \<^verbatim>\<open>inner\<close> is declared in the body of \<^verbatim>\<open>outer\<close>, not at the
  top level, and the scan returns it.
\<close>

theorem nested_declaration_counterexample:
  "extractFunctionNames nested_code = [js ''outer'', js ''inner'']"
  by (simp add: nested_code_def scan_eval)

section \<open>The status code of a successful execution\<close>

text \<open>
  The data of a successful result, for a name that is deployed: the three shapes, and the
  status in each.
\<close>

lemma execute_status_shapes:
  fixes rt f n payload headers
  defines "calls \<equiv> res_calls (script_run rt f n payload headers)"
  defines "b \<equiv> builder_after rt calls"
  assumes "map_of (h_functions h) n = Some f"
    and "executeFunction rt h n payload headers = Some r"
    and "er_success r"
  shows "er_statusCode r = Some 200
     \<and> (\<exists>ret d. settles_with (outcome (script_run rt f n payload headers)) ret
          \<and> er_data r = Some d
          \<and> d = (if shape_A ret
                 then Object [(js ''data'', get_prop ret (js ''body'')),
                              (js ''status'', get_prop ret (js ''status'')),
                              (js ''headers'', if truthy (get_prop ret (js ''headers''))
                                               then get_prop ret (js ''headers'') else Object [])]
                 else if responseData b \<noteq> Undefined
                 then Object [(js ''data'', responseData b), (js ''status'', statusCode b),
                              (js ''headers'', Object (responseHeaders b))]
                 else ret)
          \<and> (\<forall>body init. ret = MockResponse body init \<and> body \<noteq> Undefined
                \<longrightarrow> get_prop d (js ''status'') =
                      (if truthy (get_prop init (js ''status''))
                       then get_prop init (js ''status'') else Number (Finite 200)))
          \<and> (\<forall>pre s post. \<not> shape_A ret \<and> responseData b \<noteq> Undefined
                \<and> calls = pre @ Status s # post \<and> \<not> list_ex is_status post
                \<longrightarrow> get_prop d (js ''status'') = s)
          \<and> (\<not> shape_A ret \<and> responseData b \<noteq> Undefined \<and> \<not> list_ex is_status calls
                \<longrightarrow> get_prop d (js ''status'') = Number (Finite 200))
          \<and> (\<not> shape_A ret \<and> responseData b = Undefined \<longrightarrow> d = ret))"
proof -
  from assms(4,5) obtain ret where ret: "settles_with (outcome (script_run rt f n payload headers)) ret"
    unfolding executeFunction_found[OF assms(3)]
    by (auto split: run_result.splits settled.splits)
  let ?d = "extractResponseData ret b"
  from executeFunction_settled[OF assms(3) ret, folded calls_def b_def] assms(4)
  have r: "er_statusCode r = Some 200" "er_data r = Some ?d" by auto
  have shapes: "?d = (if shape_A ret
                 then Object [(js ''data'', get_prop ret (js ''body'')),
                              (js ''status'', get_prop ret (js ''status'')),
                              (js ''headers'', if truthy (get_prop ret (js ''headers''))
                                               then get_prop ret (js ''headers'') else Object [])]
                 else if responseData b \<noteq> Undefined
                 then Object [(js ''data'', responseData b), (js ''status'', statusCode b),
                              (js ''headers'', Object (responseHeaders b))]
                 else ret)"
    by (rule extractResponseData_shapes)
  have response: "get_prop ?d (js ''status'') =
        (if truthy (get_prop init (js ''status''))
         then get_prop init (js ''status'') else Number (Finite 200))"
    if "ret = MockResponse body init" "body \<noteq> Undefined" for body init
  proof -
    from that have "shape_A ret" by (simp add: MockResponse_shape_A)
    then have "get_prop ?d (js ''status'') = get_prop ret (js ''status'')"
      unfolding shapes by simp
    then show ?thesis unfolding that(1) MockResponse_status .
  qed
  have builder: "get_prop ?d (js ''status'') = statusCode b"
    if "\<not> shape_A ret" "responseData b \<noteq> Undefined"
    using that unfolding shapes by simp
  have chosen: "get_prop ?d (js ''status'') = s"
    if "\<not> shape_A ret" "responseData b \<noteq> Undefined" "calls = pre @ Status s # post"
      "\<not> list_ex is_status post" for pre s post
  proof -
    have "statusCode b = s"
      unfolding b_def builder_after_def that(3) by (rule statusCode_last_status[OF that(4)])
    with builder[OF that(1,2)] show ?thesis by simp
  qed
  have default: "get_prop ?d (js ''status'') = Number (Finite 200)"
    if "\<not> shape_A ret" "responseData b \<noteq> Undefined" "\<not> list_ex is_status calls"
  proof -
    have "statusCode b = statusCode createMockResponse"
      unfolding b_def builder_after_def by (rule statusCode_no_status[OF that(3)])
    then have "statusCode b = Number (Finite 200)" by (simp add: createMockResponse_def)
    with builder[OF that(1,2)] show ?thesis by simp
  qed
  have raw: "?d = ret" if "\<not> shape_A ret" "responseData b = Undefined"
    using that unfolding shapes by simp
  from ret r shapes response chosen default raw show ?thesis by blast
qed


text \<open>
  Claim C10, as the code has it. Every successful result of \<^verbatim>\<open>executeFunction\<close> has the
  status code 200, whatever status the function chose. Its data is: for a settled value
  with \<^verbatim>\<open>body\<close> and \<^verbatim>\<open>status\<close> defined, the object made of the body, that status and the
  headers, so the status of a returned \<^verbatim>\<open>Response\<close> with a body is the status in the data;
  otherwise, when the builder's data is defined, the object made of the builder's data,
  status and headers, so the status of the last \<^verbatim>\<open>status(...)\<close> call is the status in the
  data; otherwise the settled value itself, and a status given to the builder is in no
  field of the result.
\<close>

theorem execute_status_code_and_data:
  assumes "executeFunction rt h n payload headers = Some r" and "er_success r"
  shows "er_statusCode r = Some 200
     \<and> (\<exists>f ret d. map_of (h_functions h) n = Some f
          \<and> settles_with (outcome (script_run rt f n payload headers)) ret
          \<and> er_data r = Some d
          \<and> (let calls = res_calls (script_run rt f n payload headers);
                  b = builder_after rt calls
              in d = (if shape_A ret
                      then Object [(js ''data'', get_prop ret (js ''body'')),
                                   (js ''status'', get_prop ret (js ''status'')),
                                   (js ''headers'', if truthy (get_prop ret (js ''headers''))
                                                    then get_prop ret (js ''headers'') else Object [])]
                      else if responseData b \<noteq> Undefined
                      then Object [(js ''data'', responseData b), (js ''status'', statusCode b),
                                   (js ''headers'', Object (responseHeaders b))]
                      else ret)
               \<and> (\<forall>body init. ret = MockResponse body init \<and> body \<noteq> Undefined
                     \<longrightarrow> get_prop d (js ''status'') =
                           (if truthy (get_prop init (js ''status''))
                            then get_prop init (js ''status'') else Number (Finite 200)))
               \<and> (\<forall>pre s post. \<not> shape_A ret \<and> responseData b \<noteq> Undefined
                     \<and> calls = pre @ Status s # post \<and> \<not> list_ex is_status post
                     \<longrightarrow> get_prop d (js ''status'') = s)
               \<and> (\<not> shape_A ret \<and> responseData b \<noteq> Undefined \<and> \<not> list_ex is_status calls
                     \<longrightarrow> get_prop d (js ''status'') = Number (Finite 200))
               \<and> (\<not> shape_A ret \<and> responseData b = Undefined \<longrightarrow> d = ret)))"
proof -
  from assms obtain f where f: "map_of (h_functions h) n = Some f"
    by (cases "map_of (h_functions h) n") (auto simp: executeFunction_def)
  from execute_status_shapes[OF f assms] f show ?thesis
    unfolding Let_def by blast
qed

theorem execute_status_code_and_data_witness:
  "(\<exists>r d. executeFunction (example_host None status_then_json) example_handler
             (js ''adder'') (Object []) [] = Some r
        \<and> er_success r \<and> er_statusCode r = Some 200 \<and> er_data r = Some d
        \<and> get_prop d (js ''status'') = Number (Finite 404))
   \<and> (\<exists>r d. executeFunction (example_host None response_404_run) example_handler
             (js ''adder'') (Object []) [] = Some r
        \<and> er_success r \<and> er_statusCode r = Some 200 \<and> er_data r = Some d
        \<and> get_prop d (js ''status'') = Number (Finite 404))"
proof -
  have builder_path: "\<exists>r d. executeFunction (example_host None status_then_json) example_handler
             (js ''adder'') (Object []) [] = Some r
        \<and> er_success r \<and> er_statusCode r = Some 200 \<and> er_data r = Some d
        \<and> get_prop d (js ''status'') = Number (Finite 404)"
  proof -
    let ?rt = "example_host None status_then_json"
    let ?v = "Object [(js ''ok'', Boolean True)]"
    have s: "settles_with (outcome (script_run ?rt example_function (js ''adder'') (Object []) [])) Undefined"
      unfolding example_run by (simp add: status_then_json_def)
    note e = executeFunction_settled[OF example_adder s]
    have suc: "er_success (the (executeFunction ?rt example_handler (js ''adder'') (Object []) []))"
      unfolding e by simp
    have calls: "res_calls (script_run ?rt example_function (js ''adder'') (Object []) [])
        = [] @ Status (Number (Finite 404)) # [Json ?v]"
      unfolding example_run by (simp add: status_then_json_def)
    have ns: "\<not> list_ex is_status [Json ?v]" by simp
    have rd: "responseData (builder_after ?rt (res_calls (script_run ?rt example_function (js ''adder'') (Object []) [])))
        \<noteq> Undefined"
      unfolding example_run by (simp add: status_then_json_def builder_after_def createMockResponse_def)
    have nA: "\<not> shape_A Undefined" by (simp add: shape_A_def)
    from e have some: "executeFunction ?rt example_handler (js ''adder'') (Object []) []
        = Some (the (executeFunction ?rt example_handler (js ''adder'') (Object []) []))" by simp
    from execute_status_code_and_data[OF some suc, unfolded Let_def] obtain f ret d where
      c0: "er_statusCode (the (executeFunction ?rt example_handler (js ''adder'') (Object []) [])) = Some 200"
        "map_of (h_functions example_handler) (js ''adder'') = Some f"
        "settles_with (outcome (script_run ?rt f (js ''adder'') (Object []) [])) ret"
        "er_data (the (executeFunction ?rt example_handler (js ''adder'') (Object []) [])) = Some d"
      and st0: "\<forall>pre s post. \<not> shape_A ret
          \<and> responseData (builder_after ?rt (res_calls (script_run ?rt f (js ''adder'') (Object []) []))) \<noteq> Undefined
          \<and> res_calls (script_run ?rt f (js ''adder'') (Object []) []) = pre @ Status s # post
          \<and> \<not> list_ex is_status post
          \<longrightarrow> get_prop d (js ''status'') = s"
      by blast
    have f: "f = example_function" using c0(2) unfolding example_adder by simp
    note c = c0(1) c0(3)[unfolded f] c0(4) and st = st0[unfolded f]
    from c(2) have "ret = Undefined"
      unfolding example_run by (simp add: status_then_json_def)
    with st nA rd calls ns have "get_prop d (js ''status'') = Number (Finite 404)" by blast
    with some suc c show ?thesis by blast
  qed
  have response_path: "\<exists>r d. executeFunction (example_host None response_404_run) example_handler
             (js ''adder'') (Object []) [] = Some r
        \<and> er_success r \<and> er_statusCode r = Some 200 \<and> er_data r = Some d
        \<and> get_prop d (js ''status'') = Number (Finite 404)"
  proof -
    let ?rt = "example_host None response_404_run"
    let ?init = "Object [(js ''status'', Number (Finite 404))]"
    let ?resp = "MockResponse (String (js ''gone'')) ?init"
    have s: "settles_with (outcome (script_run ?rt example_function (js ''adder'') (Object []) [])) ?resp"
      unfolding example_run by (simp add: response_404_run_def)
    note e = executeFunction_settled[OF example_adder s]
    have suc: "er_success (the (executeFunction ?rt example_handler (js ''adder'') (Object []) []))"
      unfolding e by simp
    from e have some: "executeFunction ?rt example_handler (js ''adder'') (Object []) []
        = Some (the (executeFunction ?rt example_handler (js ''adder'') (Object []) []))" by simp
    from execute_status_code_and_data[OF some suc, unfolded Let_def] obtain f ret d where
      c0: "er_statusCode (the (executeFunction ?rt example_handler (js ''adder'') (Object []) [])) = Some 200"
        "map_of (h_functions example_handler) (js ''adder'') = Some f"
        "settles_with (outcome (script_run ?rt f (js ''adder'') (Object []) [])) ret"
        "er_data (the (executeFunction ?rt example_handler (js ''adder'') (Object []) [])) = Some d"
      and st: "\<forall>body init. ret = MockResponse body init \<and> body \<noteq> Undefined
          \<longrightarrow> get_prop d (js ''status'') =
                (if truthy (get_prop init (js ''status''))
                 then get_prop init (js ''status'') else Number (Finite 200))"
      by blast
    have f: "f = example_function" using c0(2) unfolding example_adder by simp
    note c = c0(1) c0(3)[unfolded f] c0(4)
    from c(2) have "ret = ?resp"
      unfolding example_run by (simp add: response_404_run_def)
    moreover have "String (js ''gone'') \<noteq> Undefined" by simp
    ultimately have "get_prop d (js ''status'') =
        (if truthy (get_prop ?init (js ''status'')) then get_prop ?init (js ''status'')
         else Number (Finite 200))"
      using st by blast
    then have "get_prop d (js ''status'') = Number (Finite 404)" by simp
    with some suc c show ?thesis by blast
  qed
  from builder_path response_path show ?thesis by (rule conjI)
qed

text \<open>
  The claim as written fails: after \<^verbatim>\<open>res.status(404)\<close> with no \<^verbatim>\<open>json\<close> or \<^verbatim>\<open>text\<close> and the
  return value \<^verbatim>\<open>5\<close>, the call succeeds with the data \<^verbatim>\<open>5\<close>: the data is not a
  \<^verbatim>\<open>{data, status, headers}\<close> object and the chosen status is in no field of the result.
\<close>

theorem status_dropped_counterexample:
  "executeFunction (example_host None status_only_run) example_handler (js ''adder'') (Object []) [] =
     Some \<lparr> er_success = True, er_functionName = js ''adder'',
            er_data = Some (Number (Finite 5)),
            er_error = None, er_statusCode = Some 200, er_executionTime = Some 1,
            er_runtime = Some (js ''nodejs''), er_timestamp = Some 2,
            er_availableFunctions = None, er_headers = Some [] \<rparr>"
proof -
  have ck: "clock (example_host None r) = int" for r
    by (simp add: example_host_def)
  have lw: "toLowerCase (example_host None r) = (\<lambda>s. s)" for r
    by (simp add: example_host_def)
  show ?thesis
    unfolding executeFunction_found[OF example_adder] example_run ck builder_after_def lw
    by (simp add: status_only_run_def createMockResponse_def extractResponseData_def
          getData_def getStatusCode_def getHeaders_def)
qed

end
